theory Spec2Isabelle
  imports Main "HOL-Library.Char_ord" "HOL-Library.List_Lexorder" "HOL-Library.AList"
begin

section \<open>JavaScript strings and regular expressions\<close>

text \<open>
  A JavaScript string is modelled as a \<^typ>\<open>string\<close>: a list of code units, here the
  units \<open>0..255\<close>.  The source uses regular-expression literals throughout; they are
  embedded as values of the datatype \<open>regex\<close> and run by a backtracking matcher that
  returns, in the priority order of a backtracking engine, every way a pattern can
  match at the current position ("list of successes").  The first element that lets
  the rest of the pattern succeed is the match JavaScript reports.
\<close>

definition isLineTerminator :: "char \<Rightarrow> bool" where
  "isLineTerminator c = (c = CHR 0x0A \<or> c = CHR 0x0D)"

text \<open>\<open>\s\<close>: tab, line feed, vertical tab, form feed, carriage return, space, no-break space.\<close>

definition isSpace :: "char \<Rightarrow> bool" where
  "isSpace c = (c = CHR 0x09 \<or> c = CHR 0x0A \<or> c = CHR 0x0B \<or> c = CHR 0x0C \<or> c = CHR 0x0D
     \<or> c = CHR 0x20 \<or> c = CHR 0xA0)"

text \<open>\<open>\w\<close>: \<open>[A-Za-z0-9_]\<close>.\<close>

definition isWord :: "char \<Rightarrow> bool" where
  "isWord c = (let n = (of_char c :: nat) in
     (65 \<le> n \<and> n \<le> 90) \<or> (97 \<le> n \<and> n \<le> 122) \<or> (48 \<le> n \<and> n \<le> 57) \<or> n = 95)"

datatype cclass =
    AnyChar           \<comment> \<open>\<open>.\<close> (no \<open>s\<close> flag: any unit but a line terminator)\<close>
  | Space             \<comment> \<open>\<open>\s\<close>\<close>
  | WordChar          \<comment> \<open>\<open>\w\<close>\<close>
  | OneOf string      \<comment> \<open>\<open>[abc]\<close>\<close>
  | NoneOf string     \<comment> \<open>\<open>[^abc]\<close>\<close>

fun inClass :: "cclass \<Rightarrow> char \<Rightarrow> bool" where
  "inClass AnyChar c = (\<not> isLineTerminator c)"
| "inClass Space c = isSpace c"
| "inClass WordChar c = isWord c"
| "inClass (OneOf cs) c = (c \<in> set cs)"
| "inClass (NoneOf cs) c = (c \<notin> set cs)"

datatype regex =
    Lit string              \<comment> \<open>a run of literal characters\<close>
  | Cls cclass              \<comment> \<open>one character of a class\<close>
  | Plus cclass             \<comment> \<open>\<open>c+\<close>, greedy\<close>
  | Star cclass             \<comment> \<open>\<open>c*\<close>, greedy\<close>
  | LazyStar cclass         \<comment> \<open>\<open>c*?\<close>\<close>
  | Opt regex               \<comment> \<open>\<open>(?:r)?\<close>, greedy\<close>
  | Seq regex regex
  | Alt regex regex         \<comment> \<open>\<open>r1|r2\<close>\<close>
  | Group nat regex         \<comment> \<open>capturing group number \<open>n\<close>\<close>
  | NegLookahead regex      \<comment> \<open>\<open>(?!r)\<close>\<close>
  | Bol                     \<comment> \<open>\<open>^\<close> under the \<open>m\<close> flag\<close>
  | Eol                     \<comment> \<open>\<open>$\<close> under the \<open>m\<close> flag\<close>

text \<open>
  The matcher's state: the character before the current position (\<open>None\<close> at the start
  of the input), the input still to read, and the captures made so far (latest first).
\<close>

type_synonym mstate = "char option \<times> string \<times> (nat \<times> string) list"

fun matchLit :: "string \<Rightarrow> mstate \<Rightarrow> mstate list" where
  "matchLit [] st = [st]"
| "matchLit (c # cs) (p, [], caps) = []"
| "matchLit (c # cs) (p, x # xs, caps) =
     (if x = c then matchLit cs (Some x, xs, caps) else [])"

fun matchCls :: "cclass \<Rightarrow> mstate \<Rightarrow> mstate list" where
  "matchCls k (p, [], caps) = []"
| "matchCls k (p, x # xs, caps) = (if inClass k x then [(Some x, xs, caps)] else [])"

text \<open>The states after one, two, ... characters of the class, shortest run first.\<close>

fun runs :: "cclass \<Rightarrow> mstate \<Rightarrow> mstate list" where
  "runs k (p, [], caps) = []"
| "runs k (p, x # xs, caps) =
     (if inClass k x then (Some x, xs, caps) # runs k (Some x, xs, caps) else [])"

fun setCapture :: "nat \<Rightarrow> mstate \<Rightarrow> mstate \<Rightarrow> mstate" where
  "setCapture n (p, s, caps) (p', s', caps') =
     (p', s', (n, take (length s - length s') s) # caps')"

fun rmatch :: "regex \<Rightarrow> mstate \<Rightarrow> mstate list" where
  "rmatch (Lit l) st = matchLit l st"
| "rmatch (Cls k) st = matchCls k st"
| "rmatch (Plus k) st = rev (runs k st)"
| "rmatch (Star k) st = rev (runs k st) @ [st]"
| "rmatch (LazyStar k) st = st # runs k st"
| "rmatch (Opt r) st = rmatch r st @ [st]"
| "rmatch (Seq r1 r2) st = concat (map (rmatch r2) (rmatch r1 st))"
| "rmatch (Alt r1 r2) st = rmatch r1 st @ rmatch r2 st"
| "rmatch (Group n r) st = map (setCapture n st) (rmatch r st)"
| "rmatch (NegLookahead r) st = (if rmatch r st = [] then [st] else [])"
| "rmatch Bol (p, s, caps) =
     (case p of None \<Rightarrow> [(p, s, caps)]
      | Some c \<Rightarrow> if isLineTerminator c then [(p, s, caps)] else [])"
| "rmatch Eol (p, s, caps) =
     (case s of [] \<Rightarrow> [(p, s, caps)]
      | c # _ \<Rightarrow> if isLineTerminator c then [(p, s, caps)] else [])"

text \<open>
  \<open>RegExp.prototype.exec\<close> without the \<open>g\<close> flag: the match at the leftmost position
  that has one.  \<open>rexec r p s\<close> searches \<open>s\<close>, which follows the character \<open>p\<close>.
\<close>

fun rexec :: "regex \<Rightarrow> char option \<Rightarrow> string \<Rightarrow> mstate option" where
  "rexec r p [] = (case rmatch r (p, [], []) of [] \<Rightarrow> None | st # _ \<Rightarrow> Some st)"
| "rexec r p (c # cs) =
     (case rmatch r (p, c # cs, []) of [] \<Rightarrow> rexec r (Some c) cs | st # _ \<Rightarrow> Some st)"

text \<open>\<open>str.match(r)\<close> for a pattern without the \<open>g\<close> flag: the captures, or \<open>None\<close> for null.\<close>

definition strMatch :: "string \<Rightarrow> regex \<Rightarrow> (nat \<times> string) list option" where
  "strMatch s r = map_option (\<lambda>st. snd (snd st)) (rexec r None s)"

text \<open>\<open>r.test(str)\<close>.\<close>

definition regexTest :: "regex \<Rightarrow> string \<Rightarrow> bool" where
  "regexTest r s = (rexec r None s \<noteq> None)"

text \<open>
  \<open>str.replace(r, rep)\<close> for a pattern with the \<open>g\<close> flag and a replacement text without
  \<open>$\<close>: every match, found left to right from the end of the one before, is replaced.
  After an empty match the search moves on by one character.
\<close>

function gsub :: "regex \<Rightarrow> string \<Rightarrow> char option \<Rightarrow> string \<Rightarrow> string" where
  "gsub r rep p s =
     (case rmatch r (p, s, []) of
        [] \<Rightarrow> (case s of [] \<Rightarrow> [] | c # cs \<Rightarrow> c # gsub r rep (Some c) cs)
      | (p', s', caps) # _ \<Rightarrow>
          if length s' < length s then rep @ gsub r rep p' s'
          else (case s of [] \<Rightarrow> rep | c # cs \<Rightarrow> rep @ c # gsub r rep (Some c) cs))"
  by pat_completeness auto
termination
  by (relation "measure (\<lambda>(r, rep, p, s). length s)") auto

definition replaceAll :: "string \<Rightarrow> regex \<Rightarrow> string \<Rightarrow> string" where
  "replaceAll s r rep = gsub r rep None s"

text \<open>
  \<open>str.replace(pat, rep)\<close> for a string pattern: the first occurrence only.  The
  replacement texts of the source contain no \<open>$\<close>, so they are taken literally.
\<close>

fun replaceFirst :: "string \<Rightarrow> string \<Rightarrow> string \<Rightarrow> string" where
  "replaceFirst pat rep [] = (if pat = [] then rep else [])"
| "replaceFirst pat rep (c # cs) =
     (if take (length pat) (c # cs) = pat then rep @ drop (length pat) (c # cs)
      else c # replaceFirst pat rep cs)"

definition startsWith :: "string \<Rightarrow> string \<Rightarrow> bool" where
  "startsWith s pre = (take (length pre) s = pre)"

fun strIncludes :: "string \<Rightarrow> string \<Rightarrow> bool" where
  "strIncludes [] pat = (pat = [])"
| "strIncludes (c # cs) pat = (startsWith (c # cs) pat \<or> strIncludes cs pat)"

definition trim :: "string \<Rightarrow> string" where
  "trim s = rev (dropWhile isSpace (rev (dropWhile isSpace s)))"

text \<open>\<open>str.split(",")\<close>.\<close>

fun splitComma :: "string \<Rightarrow> string list" where
  "splitComma [] = [[]]"
| "splitComma (c # cs) =
     (if c = CHR '','' then [] # splitComma cs
      else (case splitComma cs of [] \<Rightarrow> [[c]] | x # xs \<Rightarrow> (c # x) # xs))"

text \<open>\<open>arr.join(sep)\<close>.\<close>

fun join :: "string \<Rightarrow> string list \<Rightarrow> string" where
  "join sep [] = []"
| "join sep [x] = x"
| "join sep (x # y # ys) = x @ sep @ join sep (y # ys)"

declare gsub.simps [simp del]

section \<open>The import merger (\<open>mergeImports\<close>)\<close>

text \<open>
  A \<open>Map<string, Set<string>>\<close> is an association list in insertion order whose values
  are duplicate-free lists, also in insertion order: JavaScript iterates both in that
  order, and the order shows in the joined default and namespace names.
\<close>

type_synonym nameMap = "(string \<times> string list) list"

record importMaps =
  importMap :: nameMap
  typeImportMap :: nameMap
  defaultImports :: nameMap
  typeDefaultImports :: nameMap
  namespaceImports :: nameMap

definition emptyMaps :: importMaps where
  "emptyMaps = \<lparr>importMap = [], typeImportMap = [], defaultImports = [],
     typeDefaultImports = [], namespaceImports = []\<rparr>"

definition quoteChars :: string where
  "quoteChars = [CHR 0x22, CHR 0x27]"

text \<open>
  \<^verbatim>\<open>/import\s+(?:type\s+)?(?:(.*?)\s+from\s+)?["']([^"']+)["'];?/\<close>, with names for
  the clause part \<^verbatim>\<open>(.*?)\s+from\s+\<close> and the module part \<^verbatim>\<open>["']([^"']+)["'];?\<close>.
\<close>

definition importClausePart :: regex where
  "importClausePart =
     Seq (Group 1 (LazyStar AnyChar)) (Seq (Plus Space) (Seq (Lit ''from'') (Plus Space)))"

definition importModulePart :: regex where
  "importModulePart =
     Seq (Cls (OneOf quoteChars))
       (Seq (Group 2 (Plus (NoneOf quoteChars)))
         (Seq (Cls (OneOf quoteChars)) (Opt (Lit '';''))))"

definition importRegex :: regex where
  "importRegex =
     Seq (Lit ''import'') (Seq (Plus Space)
       (Seq (Opt (Seq (Lit ''type'') (Plus Space)))
         (Seq (Opt importClausePart) importModulePart)))"

text \<open>\<^verbatim>\<open>/import\s+(?:type\s+)?(\w+)/\<close>\<close>

definition defaultRegex :: regex where
  "defaultRegex =
     Seq (Lit ''import'') (Seq (Plus Space)
     (Seq (Opt (Seq (Lit ''type'') (Plus Space))) (Group 1 (Plus WordChar))))"

text \<open>\<^verbatim>\<open>/[{}]/g\<close>\<close>

definition bracesRegex :: regex where
  "bracesRegex = Cls (OneOf ''{}'')"

text \<open>\<^verbatim>\<open>/\*\s+as\s+(\w+)/\<close>\<close>

definition namespaceRegex :: regex where
  "namespaceRegex =
     Seq (Lit ''*'') (Seq (Plus Space) (Seq (Lit ''as'') (Seq (Plus Space)
       (Group 1 (Plus WordChar)))))"

text \<open>The text of capture \<open>n\<close>; the empty text when the group took no part in the match.\<close>

definition capture :: "(nat \<times> string) list \<Rightarrow> nat \<Rightarrow> string" where
  "capture caps n = (case map_of caps n of None \<Rightarrow> [] | Some v \<Rightarrow> v)"

text \<open>\<open>set.add(x)\<close>.\<close>

definition setAdd :: "string \<Rightarrow> string list \<Rightarrow> string list" where
  "setAdd x xs = (if x \<in> set xs then xs else xs @ [x])"

text \<open>\<open>if (!m.has(k)) m.set(k, new Set())\<close>.\<close>

definition ensureKey :: "string \<Rightarrow> nameMap \<Rightarrow> nameMap" where
  "ensureKey k m = (if map_of m k = None then m @ [(k, [])] else m)"

text \<open>\<open>m.get(k)?.add(name)\<close>.\<close>

definition addTo :: "string \<Rightarrow> string \<Rightarrow> nameMap \<Rightarrow> nameMap" where
  "addTo k name m =
     (case map_of m k of None \<Rightarrow> m | Some ns \<Rightarrow> AList.update k (setAdd name ns) m)"

text \<open>\<open>targetMap = isTypeImport ? typeImportMap : importMap\<close>, and the same for defaults.\<close>

definition updNamed :: "bool \<Rightarrow> (nameMap \<Rightarrow> nameMap) \<Rightarrow> importMaps \<Rightarrow> importMaps" where
  "updNamed isTypeImport f maps =
     (if isTypeImport then maps\<lparr>typeImportMap := f (typeImportMap maps)\<rparr>
      else maps\<lparr>importMap := f (importMap maps)\<rparr>)"

definition updDefault :: "bool \<Rightarrow> (nameMap \<Rightarrow> nameMap) \<Rightarrow> importMaps \<Rightarrow> importMaps" where
  "updDefault isTypeImport f maps =
     (if isTypeImport then maps\<lparr>typeDefaultImports := f (typeDefaultImports maps)\<rparr>
      else maps\<lparr>defaultImports := f (defaultImports maps)\<rparr>)"

text \<open>The names of a named-import clause: braces removed, split at commas, trimmed, empties dropped.\<close>

definition clauseNames :: "string \<Rightarrow> string list" where
  "clauseNames importClause =
     filter (\<lambda>s. s \<noteq> []) (map trim (splitComma (replaceAll importClause bracesRegex [])))"

text \<open>The body of the parsing loop, for one statement.\<close>

definition parseImport :: "string \<Rightarrow> importMaps \<Rightarrow> importMaps" where
  "parseImport importStr maps =
     (case strMatch importStr importRegex of
        None \<Rightarrow> maps
      | Some caps \<Rightarrow>
          (let importClause = capture caps 1;
               modulePath = capture caps 2;
               isTypeImport = strIncludes importStr ''import type''
           in if importClause = [] then
                (case strMatch importStr defaultRegex of
                   None \<Rightarrow> maps
                 | Some dcaps \<Rightarrow>
                     updDefault isTypeImport
                       (\<lambda>m. addTo modulePath (capture dcaps 1) (ensureKey modulePath m)) maps)
              else if startsWith importClause ''{'' then
                updNamed isTypeImport
                  (\<lambda>m. fold (addTo modulePath) (clauseNames importClause) (ensureKey modulePath m))
                  maps
              else if startsWith importClause ''* as'' then
                (case strMatch importClause namespaceRegex of
                   None \<Rightarrow> maps
                 | Some ncaps \<Rightarrow>
                     maps\<lparr>namespaceImports :=
                       addTo modulePath (capture ncaps 1)
                         (ensureKey modulePath (namespaceImports maps))\<rparr>)
              else
                updDefault isTypeImport
                  (\<lambda>m. addTo modulePath (trim importClause) (ensureKey modulePath m)) maps))"

text \<open>\<open>typeMap.get(modulePath) || new Set()\<close>.\<close>

definition getOrEmpty :: "nameMap \<Rightarrow> string \<Rightarrow> string list" where
  "getOrEmpty m k = (case map_of m k of None \<Rightarrow> [] | Some ns \<Rightarrow> ns)"

text \<open>The regular names, then the type names that are not among the regular names.\<close>

definition finalNames :: "string list \<Rightarrow> string list \<Rightarrow> string list" where
  "finalNames regularNames typeNames =
     fold (\<lambda>typeName acc. if typeName \<in> set regularNames then acc else setAdd typeName acc)
       typeNames regularNames"

definition namedStatement :: "string \<Rightarrow> string list \<Rightarrow> string" where
  \<open>namedStatement modulePath names =
     ''import { '' @ join '', '' (sort names) @ '' } from "'' @ modulePath @ ''";''\<close>

definition typeNamedStatement :: "string \<Rightarrow> string list \<Rightarrow> string" where
  \<open>typeNamedStatement modulePath names =
     ''import type { '' @ join '', '' (sort names) @ '' } from "'' @ modulePath @ ''";''\<close>

definition defaultStatement :: "string \<Rightarrow> string list \<Rightarrow> string" where
  \<open>defaultStatement modulePath names =
     ''import '' @ join '', '' names @ '' from "'' @ modulePath @ ''";''\<close>

definition typeDefaultStatement :: "string \<Rightarrow> string list \<Rightarrow> string" where
  \<open>typeDefaultStatement modulePath names =
     ''import type '' @ join '', '' names @ '' from "'' @ modulePath @ ''";''\<close>

definition namespaceStatement :: "string \<Rightarrow> string list \<Rightarrow> string" where
  \<open>namespaceStatement modulePath names =
     ''import * as '' @ join '', '' names @ '' from "'' @ modulePath @ ''";''\<close>

text \<open>The five emitting loops, in the source's order.\<close>

definition emitNamed :: "importMaps \<Rightarrow> string list" where
  "emitNamed maps =
     concat (map (\<lambda>(modulePath, regularNames).
       (let names = finalNames regularNames (getOrEmpty (typeImportMap maps) modulePath)
        in if 0 < length names then [namedStatement modulePath names] else []))
       (importMap maps))"

definition emitTypeNamed :: "importMaps \<Rightarrow> string list" where
  "emitTypeNamed maps =
     concat (map (\<lambda>(modulePath, typeNames).
       (if map_of (importMap maps) modulePath = None \<and> 0 < length typeNames
        then [typeNamedStatement modulePath typeNames] else []))
       (typeImportMap maps))"

definition emitDefault :: "importMaps \<Rightarrow> string list" where
  "emitDefault maps =
     concat (map (\<lambda>(modulePath, regularDefaultNames).
       (let names = finalNames regularDefaultNames
                      (getOrEmpty (typeDefaultImports maps) modulePath)
        in if 0 < length names then [defaultStatement modulePath names] else []))
       (defaultImports maps))"

definition emitTypeDefault :: "importMaps \<Rightarrow> string list" where
  "emitTypeDefault maps =
     concat (map (\<lambda>(modulePath, typeDefaultNames).
       (if map_of (defaultImports maps) modulePath = None \<and> 0 < length typeDefaultNames
        then [typeDefaultStatement modulePath typeDefaultNames] else []))
       (typeDefaultImports maps))"

definition emitNamespace :: "importMaps \<Rightarrow> string list" where
  "emitNamespace maps =
     concat (map (\<lambda>(modulePath, names).
       (if 0 < length names then [namespaceStatement modulePath names] else []))
       (namespaceImports maps))"

definition mergedImports :: "importMaps \<Rightarrow> string list" where
  "mergedImports maps =
     emitNamed maps @ emitTypeNamed maps @ emitDefault maps @ emitTypeDefault maps
       @ emitNamespace maps"

text \<open>
  \<open>mergeImports(imports)\<close>.  \<open>Array.prototype.sort\<close> without a comparator orders strings
  by their code units, which is the lexicographic order of \<^typ>\<open>string\<close>.
\<close>

definition mergeImports :: "string list \<Rightarrow> string list" where
  "mergeImports imports = sort (mergedImports (fold parseImport imports emptyMaps))"

section \<open>The two dialect compilers (\<open>commonjsCompiler\<close>, \<open>esmCompiler\<close>)\<close>

text \<open>
  Both compilers run the TypeScript compiler on one in-memory file and collect what it
  writes in \<open>createdFiles\<close>; the model starts from \<open>Object.entries(createdFiles)\<close>, the
  emitted files as pairs of name and text.  \<open>utils.extname\<close> is not part of the
  repository and is a parameter.  An output hook takes the text and the file name.
\<close>

type_synonym OutPutHook = "string \<Rightarrow> string \<Rightarrow> string"

text \<open>\<open>if (hooks?.length) { for (const hook of hooks) content = hook(content, outName) }\<close>; the text is called \<open>code\<close> here.\<close>

definition runHooks :: "OutPutHook list option \<Rightarrow> string \<Rightarrow> string \<Rightarrow> string" where
  "runHooks hooks outName code =
     (case hooks of None \<Rightarrow> code
      | Some hs \<Rightarrow> if length hs = 0 then code else fold (\<lambda>hook c. hook c outName) hs code)"

text \<open>The text substitutions of the CommonJS compiler, by the file's extension.\<close>

definition cjsSubstitute :: "string \<Rightarrow> string \<Rightarrow> string" where
  "cjsSubstitute ext code =
     (let code1 =
        (if ext = ''.js''
         then replaceFirst ''exports.default = bundle;'' ''module.exports = bundle;'' code
         else code)
      in if ext = ''.ts''
         then replaceFirst ''export default bundle;'' ''export = bundle;'' code1
         else code1)"

text \<open>\<^verbatim>\<open>/.js/g\<close>, \<^verbatim>\<open>/.map.js/g\<close> and \<^verbatim>\<open>/.d.ts/g\<close>: the dots are unescaped and match any character.\<close>

definition jsRegex :: regex where
  "jsRegex = Seq (Cls AnyChar) (Lit ''js'')"

definition mapJsRegex :: regex where
  "mapJsRegex = Seq (Cls AnyChar) (Seq (Lit ''map'') (Seq (Cls AnyChar) (Lit ''js'')))"

definition dtsRegex :: regex where
  "dtsRegex = Seq (Cls AnyChar) (Seq (Lit ''d'') (Seq (Cls AnyChar) (Lit ''ts'')))"

definition cjsOutName :: "string \<Rightarrow> string" where
  "cjsOutName outName =
     replaceAll (replaceAll (replaceAll outName jsRegex ''.cjs'') mapJsRegex ''.map.cjs'')
       dtsRegex ''.d.cts''"

definition esmOutName :: "string \<Rightarrow> string" where
  "esmOutName outName =
     replaceAll (replaceAll (replaceAll outName jsRegex ''.mjs'') mapJsRegex ''.map.mjs'')
       dtsRegex ''.d.mts''"

text \<open>What one emitted file becomes: the name and the text handed to \<open>utils.writeFile\<close>.\<close>

definition commonjsArtifact ::
  "(string \<Rightarrow> string) \<Rightarrow> OutPutHook list option \<Rightarrow> string \<times> string \<Rightarrow> string \<times> string" where
  "commonjsArtifact extname hooks entry =
     (case entry of (outName, code) \<Rightarrow>
        (cjsOutName outName, runHooks hooks outName (cjsSubstitute (extname outName) code)))"

definition esmArtifact :: "OutPutHook list option \<Rightarrow> string \<times> string \<Rightarrow> string \<times> string" where
  "esmArtifact hooks entry =
     (case entry of (outName, code) \<Rightarrow> (esmOutName outName, runHooks hooks outName code))"

text \<open>The files each compiler writes, for the files the TypeScript emit created.\<close>

definition commonjsCompiler ::
  "(string \<Rightarrow> string) \<Rightarrow> (string \<times> string) list \<Rightarrow> OutPutHook list option
     \<Rightarrow> (string \<times> string) list" where
  "commonjsCompiler extname createdFiles hooks = map (commonjsArtifact extname hooks) createdFiles"

definition esmCompiler ::
  "(string \<times> string) list \<Rightarrow> OutPutHook list option \<Rightarrow> (string \<times> string) list" where
  "esmCompiler createdFiles hooks = map (esmArtifact hooks) createdFiles"

definition endsWith :: "string \<Rightarrow> string \<Rightarrow> bool" where
  "endsWith s suffix = (length suffix \<le> length s \<and> drop (length s - length suffix) s = suffix)"

text \<open>
  \<open>createdFiles\<close> holds whatever the TypeScript emit writes for the input file, and the
  compilers rewrite every name in it, whatever it is.  The predicate below is not part
  of the source: it singles out the names that end in a suffix one of the three patterns
  matches, the script suffixes \<open>.js\<close>, \<open>.jsx\<close>, \<open>.mjs\<close> and \<open>.cjs\<close>, each of them followed
  by \<open>.map\<close>, and the declaration suffixes \<open>.d.ts\<close> and \<open>.d.ts.map\<close>.  The emit writes
  other names too (\<open>.d.mts\<close> and \<open>.d.cts\<close> for a \<open>.mts\<close> or \<open>.cts\<close> input, their maps,
  \<open>.tsbuildinfo\<close>); no pattern reaches their suffix.
\<close>

definition suffixRewritten :: "string \<Rightarrow> bool" where
  "suffixRewritten n =
     (endsWith n ''.js'' \<or> endsWith n ''.jsx'' \<or> endsWith n ''.mjs'' \<or> endsWith n ''.cjs''
      \<or> endsWith n ''.js.map'' \<or> endsWith n ''.jsx.map'' \<or> endsWith n ''.mjs.map''
      \<or> endsWith n ''.cjs.map'' \<or> endsWith n ''.d.ts'' \<or> endsWith n ''.d.ts.map'')"

section \<open>The stripping passes and the bundle assembler\<close>

text \<open>
  The two stripping handlers parse a unit with the TypeScript compiler, run a visitor
  over the syntax tree and print the result.  The parser (\<open>ts.createSourceFile\<close>) and
  the printer (inside \<open>transformFunction\<close>) are not part of the repository and are
  parameters; the visitors and the clean-up of the printed text are modelled from the
  source.  A node carries its kind, its source text (\<open>node.getText(sourceFile)\<close>), its
  modifiers (\<open>None\<close> for \<open>undefined\<close>) and its children.
\<close>

datatype syntaxKind =
    ImportDeclaration | ImportEqualsDeclaration
  | FunctionDeclaration | ClassDeclaration | InterfaceDeclaration | TypeAliasDeclaration
  | EnumDeclaration | VariableStatement
  | ExportDeclaration | ExportAssignment
  | Identifier | EmptyStatement
  | ExportKeyword | DefaultKeyword
  | OtherKind string

datatype node =
  Node (kind: syntaxKind) (getText: string) (modifiers: "syntaxKind list option")
    (children: "node list")

record DepsFile =
  "file" :: string
  content :: string

text \<open>\<open>factory.createEmptyStatement()\<close>\<close>

definition createEmptyStatement :: node where
  "createEmptyStatement = Node EmptyStatement '';'' None []"

text \<open>
  The visitor of \<open>removeImportExpressionHandler\<close>: an import declaration or an
  import-equals declaration, at any depth, becomes an empty statement and its text is
  pushed onto \<open>removedStatements\<close>; any other node is rebuilt from its visited children.
\<close>

fun visitImports :: "node \<Rightarrow> string list \<Rightarrow> node \<times> string list"
  and visitImportsEach :: "node list \<Rightarrow> string list \<Rightarrow> node list \<times> string list" where
  "visitImports (Node k txt mods cs) removedStatements =
     (if k = ImportDeclaration then (createEmptyStatement, removedStatements @ [txt])
      else if k = ImportEqualsDeclaration then (createEmptyStatement, removedStatements @ [txt])
      else (case visitImportsEach cs removedStatements of
              (cs', removed') \<Rightarrow> (Node k txt mods cs', removed')))"
| "visitImportsEach [] removedStatements = ([], removedStatements)"
| "visitImportsEach (c # cs) removedStatements =
     (case visitImports c removedStatements of
        (c', removed1) \<Rightarrow>
          (case visitImportsEach cs removed1 of
             (cs', removed2) \<Rightarrow> (c' # cs', removed2)))"

text \<open>\<^verbatim>\<open>/^s*;\s*$/gm\<close>: the first atom is the letter \<open>s\<close>, not the class \<open>\s\<close>.\<close>

definition semicolonLineRegex :: regex where
  "semicolonLineRegex =
     Seq Bol (Seq (Star (OneOf ''s'')) (Seq (Lit '';'') (Seq (Star Space) Eol)))"

text \<open>\<^verbatim>\<open>_content.replace(/^s*;\s*$/gm, "").trim()\<close>\<close>

definition cleanContent :: "string \<Rightarrow> string" where
  "cleanContent printed = trim (replaceAll printed semicolonLineRegex [])"

definition removeImportExpressionHandler ::
  "(string \<Rightarrow> string \<Rightarrow> node) \<Rightarrow> (node \<Rightarrow> string) \<Rightarrow> string list \<Rightarrow> DepsFile
     \<Rightarrow> DepsFile \<times> string list" where
  "removeImportExpressionHandler createSourceFile printNode removedStatements dep =
     (case visitImports (createSourceFile (file dep) (content dep)) removedStatements of
        (root, removed') \<Rightarrow>
          (\<lparr>file = file dep, content = cleanContent (printNode root)\<rparr>, removed'))"

text \<open>
  The visitor of \<open>removeExportExpressionHandler\<close>.  A declaration whose modifiers lose an
  \<open>export\<close> or \<open>default\<close> keyword is returned with the remaining modifiers and is not
  visited further; an export declaration, and an export assignment of an identifier,
  become empty statements; any other node is rebuilt from its visited children.
\<close>

definition isDeclarationKind :: "syntaxKind \<Rightarrow> bool" where
  "isDeclarationKind k = (k = FunctionDeclaration \<or> k = ClassDeclaration
     \<or> k = InterfaceDeclaration \<or> k = TypeAliasDeclaration \<or> k = EnumDeclaration
     \<or> k = VariableStatement)"

definition withoutExport :: "syntaxKind list option \<Rightarrow> syntaxKind list option" where
  "withoutExport mods =
     map_option (filter (\<lambda>m. m \<noteq> ExportKeyword \<and> m \<noteq> DefaultKeyword)) mods"

fun visitExports :: "node \<Rightarrow> node" where
  "visitExports (Node k txt mods cs) =
     (if isDeclarationKind k
         \<and> map_option length (withoutExport mods) \<noteq> map_option length mods
      then Node k txt (withoutExport mods) cs
      else if k = ExportDeclaration then createEmptyStatement
      else if k = ExportAssignment
         \<and> (case cs of [] \<Rightarrow> False | expr # _ \<Rightarrow> kind expr = Identifier)
      then createEmptyStatement
      else Node k txt mods (map visitExports cs))"

definition removeExportExpressionHandler ::
  "(string \<Rightarrow> string \<Rightarrow> node) \<Rightarrow> (node \<Rightarrow> string) \<Rightarrow> DepsFile \<Rightarrow> DepsFile" where
  "removeExportExpressionHandler createSourceFile printNode dep =
     \<lparr>file = file dep,
      content = cleanContent (printNode (visitExports (createSourceFile (file dep) (content dep))))\<rparr>"

subsection \<open>The resolver's result (\<open>getDependencies\<close>, \<open>dependency\<close>)\<close>

text \<open>
  What \<open>dependencies(entry)\<close> of the resolver package answers: the sorted file list,
  the mutual (circular) pairs and the unknown-module warnings.
\<close>

record depGraph =
  sortResult :: "string list"
  mutualResult :: "(string \<times> string) list"
  warnResult :: "string list"

definition circularMessage :: "string \<times> string \<Rightarrow> string" where
  "circularMessage i =
     fst i @ '' -> '' @ snd i @ '' \<newline> '' @ snd i @ '' -> '' @ fst i @ '' \<newline>''"

text \<open>\<open>getDependencies\<close>: the sorted list and the warning messages.\<close>

definition getDependencies :: "depGraph \<Rightarrow> string list \<times> string list" where
  "getDependencies deps =
     (let circular = map circularMessage (mutualResult deps);
          unknown = map (\<lambda>i. i @ ''\<newline>'') (warnResult deps)
      in (sortResult deps,
          (if 0 < length circular then [concat circular] else [])
            @ (if 0 < length unknown then [concat unknown] else [])))"

record dependencyResult =
  depFiles :: "DepsFile list"
  messages :: "string list"

definition dependency ::
  "(string \<Rightarrow> string) \<Rightarrow> (string \<Rightarrow> string) \<Rightarrow> depGraph \<Rightarrow> dependencyResult" where
  "dependency resolvePath readFile deps =
     (case getDependencies deps of
        (sortedDeps, msgs) \<Rightarrow>
          \<lparr>depFiles = map (\<lambda>dep. \<lparr>file = resolvePath dep, content = readFile (resolvePath dep)\<rparr>)
                        sortedDeps,
           messages = msgs\<rparr>)"

subsection \<open>\<open>bundle\<close>\<close>

text \<open>
  The collaborators of \<open>bundle\<close> that are not part of the repository.  The checks, the
  duplicate handlers and the anonymous-export pass can throw, which aborts the call;
  they answer with a sum whose left part is the thrown failure.
\<close>

datatype failure = Thrown string

record 'o externals =
  dependencies :: "string \<Rightarrow> depGraph"
  resolvePath :: "string \<Rightarrow> string"
  readFile :: "string \<Rightarrow> string"
  tsconfig :: "string option \<Rightarrow> 'o"
  checks :: "DepsFile list \<Rightarrow> 'o \<Rightarrow> failure option"
  checkJSX :: "DepsFile list \<Rightarrow> bool"
  renamed :: "DepsFile list \<Rightarrow> 'o \<Rightarrow> failure + DepsFile list"
  notRenamed :: "DepsFile list \<Rightarrow> 'o \<Rightarrow> failure + DepsFile list"
  anonymous :: "DepsFile list \<Rightarrow> 'o \<Rightarrow> failure + DepsFile list"
  createSourceFile :: "string \<Rightarrow> string \<Rightarrow> node"
  printNode :: "'o \<Rightarrow> node \<Rightarrow> string"

record BundleOptions =
  tsconfigPath :: "string option"
  renameDuplicates :: "bool option"

text \<open>The result \<open>{ content, isJsx }\<close>; its first field is named \<open>bundleContent\<close> here.\<close>

record BundleResult =
  bundleContent :: string
  isJsx :: bool

text \<open>\<open>deps.map(removeImport[0])\<close>: the handler runs over the units in order, one shared list.\<close>

fun removeImportsEach ::
  "(string list \<Rightarrow> DepsFile \<Rightarrow> DepsFile \<times> string list) \<Rightarrow> DepsFile list \<Rightarrow> string list
     \<Rightarrow> DepsFile list \<times> string list" where
  "removeImportsEach handler [] removedStatements = ([], removedStatements)"
| "removeImportsEach handler (d # ds) removedStatements =
     (case handler removedStatements d of
        (d', removed1) \<Rightarrow>
          (case removeImportsEach handler ds removed1 of
             (ds', removed2) \<Rightarrow> (d' # ds', removed2)))"

text \<open>\<^verbatim>\<open>/["']((?!\.\/|\.\.\/)[^"']+)["']/\<close>\<close>

definition nonLocalRegex :: regex where
  "nonLocalRegex =
     Seq (Cls (OneOf quoteChars))
       (Seq (Group 1 (Seq (NegLookahead (Alt (Lit ''./'') (Lit ''../'')))
                          (Plus (NoneOf quoteChars))))
            (Cls (OneOf quoteChars)))"

text \<open>Step 9 of \<open>bundle\<close>: the removed statements are filtered, then merged.\<close>

definition hoistedImports :: "string list \<Rightarrow> string list" where
  "hoistedImports removedStatements =
     mergeImports (filter (regexTest nonLocalRegex) removedStatements)"

text \<open>The function \<open>bundle\<close> of the source; it is called \<open>bundleFn\<close> here.\<close>

definition bundleFn :: "'o externals \<Rightarrow> string \<Rightarrow> BundleOptions option \<Rightarrow> failure + BundleResult" where
  "bundleFn ext entry options =
     (let reName = (case options of None \<Rightarrow> True
                    | Some opts \<Rightarrow> (case renameDuplicates opts of None \<Rightarrow> True | Some b \<Rightarrow> b));
          deps0 = depFiles (dependency (resolvePath ext) (readFile ext) (dependencies ext entry));
          compilerOptions = tsconfig ext (case options of None \<Rightarrow> None
                                          | Some opts \<Rightarrow> tsconfigPath opts)
      in case checks ext deps0 compilerOptions of
           Some err \<Rightarrow> Inl err
         | None \<Rightarrow>
             (case (if reName then renamed ext deps0 compilerOptions
                    else notRenamed ext deps0 compilerOptions) of
                Inl err \<Rightarrow> Inl err
              | Inr deps1 \<Rightarrow>
                  (case anonymous ext deps1 compilerOptions of
                     Inl err \<Rightarrow> Inl err
                   | Inr deps2 \<Rightarrow>
                       (case removeImportsEach
                               (removeImportExpressionHandler (createSourceFile ext)
                                  (printNode ext compilerOptions)) deps2 [] of
                          (deps3, removedStatements) \<Rightarrow>
                            (let depsFiles =
                                   map (removeExportExpressionHandler (createSourceFile ext)
                                          (printNode ext compilerOptions))
                                     (take (length deps3 - 1) deps3);
                                 mainFile = drop (length deps3 - 1) deps3;
                                 merged = hoistedImports removedStatements;
                                 top = trim (join ''\<newline>'' merged)
                             in Inr \<lparr>bundleContent =
                                      trim (top @ ''\<newline>'' @ join ''\<newline>'' (map content depsFiles)
                                        @ ''\<newline>'' @ join ''\<newline>'' (map content mainFile)),
                                    isJsx = checkJSX ext deps0\<rparr>)))))"

section \<open>Predicates used in the statements\<close>

text \<open>
  A map of the merger is well formed when every module path has one entry and no entry
  lists a name twice.
\<close>

definition uniqueEntries :: "nameMap \<Rightarrow> bool" where
  "uniqueEntries m = (distinct (map fst m) \<and> list_all (\<lambda>entry. distinct (snd entry)) m)"

definition wellFormedMaps :: "importMaps \<Rightarrow> bool" where
  "wellFormedMaps maps =
     (uniqueEntries (importMap maps) \<and> uniqueEntries (typeImportMap maps)
      \<and> uniqueEntries (defaultImports maps) \<and> uniqueEntries (typeDefaultImports maps)
      \<and> uniqueEntries (namespaceImports maps))"

text \<open>A tree has an import when some node of it is an import or import-equals declaration.\<close>

fun hasImport :: "node \<Rightarrow> bool" where
  "hasImport (Node k txt mods cs) =
     (k = ImportDeclaration \<or> k = ImportEqualsDeclaration \<or> list_ex hasImport cs)"

text \<open>The texts of the outermost import nodes of a tree, in depth-first order.\<close>

fun importTexts :: "node \<Rightarrow> string list" where
  "importTexts (Node k txt mods cs) =
     (if k = ImportDeclaration \<or> k = ImportEqualsDeclaration then [txt]
      else concat (map importTexts cs))"

text \<open>
  A tree is flat for the export visitor when no declaration whose export marker the
  visitor strips has, among its children, a tree the visitor would change.
\<close>

fun exportFlat :: "node \<Rightarrow> bool" where
  "exportFlat (Node k txt mods cs) =
     (if isDeclarationKind k
         \<and> map_option length (withoutExport mods) \<noteq> map_option length mods
      then list_all (\<lambda>c. visitExports c = c) cs
      else list_all exportFlat cs)"

section \<open>Facts about the matcher\<close>

lemma matchLit_suffix:
  "st' \<in> set (matchLit l st) \<Longrightarrow> \<exists>u. fst (snd st) = u @ fst (snd st')"
proof (induction l st rule: matchLit.induct)
  case (1 st)
  then show ?case by simp
next
  case (2 c cs p caps)
  then show ?case by simp
next
  case (3 c cs p x xs caps)
  show ?case
  proof (cases "x = c")
    case True
    with "3.prems" have "st' \<in> set (matchLit cs (Some x, xs, caps))"
      by simp
    then obtain u where "xs = u @ fst (snd st')"
      using "3.IH" True by fastforce
    then have "x # xs = (x # u) @ fst (snd st')" by simp
    then show ?thesis by (simp only: fst_conv snd_conv) blast
  next
    case False
    with "3.prems" show ?thesis by simp
  qed
qed

lemma runs_suffix:
  "st' \<in> set (runs k (p, s, caps)) \<Longrightarrow> \<exists>u. u \<noteq> [] \<and> s = u @ fst (snd st')"
proof (induction s arbitrary: p)
  case Nil
  then show ?case by simp
next
  case (Cons x xs)
  show ?case
  proof (cases "inClass k x")
    case True
    with Cons.prems have "st' = (Some x, xs, caps) \<or> st' \<in> set (runs k (Some x, xs, caps))"
      by simp
    then show ?thesis
    proof
      assume "st' = (Some x, xs, caps)"
      then have "[x] \<noteq> [] \<and> x # xs = [x] @ fst (snd st')" by simp
      then show ?thesis by blast
    next
      assume "st' \<in> set (runs k (Some x, xs, caps))"
      then obtain u where "xs = u @ fst (snd st')"
        using Cons.IH by blast
      then have "x # u \<noteq> [] \<and> x # xs = (x # u) @ fst (snd st')" by simp
      then show ?thesis by blast
    qed
  next
    case False
    with Cons.prems show ?thesis by simp
  qed
qed

lemma runs_suffix':
  "st' \<in> set (runs k st) \<Longrightarrow> \<exists>u. u \<noteq> [] \<and> fst (snd st) = u @ fst (snd st')"
  using runs_suffix [of st' k "fst st" "fst (snd st)" "snd (snd st)"] by simp

lemma setCapture_rest: "fst (snd (setCapture n st0 st)) = fst (snd st)"
  by (cases st0; cases st) simp

lemma rmatch_suffix:
  "st' \<in> set (rmatch r st) \<Longrightarrow> \<exists>u. fst (snd st) = u @ fst (snd st')"
proof (induction r arbitrary: st st')
  case (Lit l)
  then show ?case using matchLit_suffix by simp
next
  case (Cls k)
  obtain p s caps where st: "st = (p, s, caps)" by (cases st)
  show ?case
  proof (cases s)
    case Nil
    with Cls show ?thesis unfolding st by simp
  next
    case (Cons x xs)
    with Cls have "st' = (Some x, xs, caps)"
      unfolding st by (simp split: if_splits)
    then have "fst (snd st) = [x] @ fst (snd st')"
      unfolding st Cons by simp
    then show ?thesis by blast
  qed
next
  case (Plus k)
  then have "st' \<in> set (runs k st)" by simp
  then show ?case using runs_suffix' by blast
next
  case (Star k)
  then have "st' = st \<or> st' \<in> set (runs k st)" by auto
  then show ?case using runs_suffix' by (metis append_Nil)
next
  case (LazyStar k)
  then have "st' = st \<or> st' \<in> set (runs k st)" by auto
  then show ?case using runs_suffix' by (metis append_Nil)
next
  case (Opt r)
  then have "st' = st \<or> st' \<in> set (rmatch r st)" by auto
  then show ?case using Opt.IH by (metis append_Nil)
next
  case (Seq r1 r2)
  then obtain st1 where "st1 \<in> set (rmatch r1 st)" and "st' \<in> set (rmatch r2 st1)"
    by auto
  then obtain u v where "fst (snd st) = u @ fst (snd st1)" and "fst (snd st1) = v @ fst (snd st')"
    using Seq.IH by blast
  then have "fst (snd st) = (u @ v) @ fst (snd st')" by simp
  then show ?case by blast
next
  case (Alt r1 r2)
  then have "st' \<in> set (rmatch r1 st) \<or> st' \<in> set (rmatch r2 st)" by auto
  then show ?case using Alt.IH by blast
next
  case (Group n r)
  then obtain st1 where "st1 \<in> set (rmatch r st)" and "st' = setCapture n st st1"
    by auto
  then show ?case
    using Group.IH by (simp add: setCapture_rest)
next
  case (NegLookahead r)
  then have "st' = st" by (auto split: if_splits)
  then show ?case by simp
next
  case Bol
  obtain p s caps where st: "st = (p, s, caps)" by (cases st)
  from Bol have "st' = st" unfolding st by (auto split: option.splits if_splits)
  then show ?case by simp
next
  case Eol
  obtain p s caps where st: "st = (p, s, caps)" by (cases st)
  from Eol have "st' = st" unfolding st by (auto split: list.splits if_splits)
  then show ?case by simp
qed

lemma runs_rest_subset:
  "st \<in> set (runs k (p, s, caps)) \<Longrightarrow> set (fst (snd st)) \<subseteq> set s"
proof (induction s arbitrary: p)
  case Nil
  then show ?case by simp
next
  case (Cons c cs)
  then show ?case by (fastforce split: if_splits)
qed

lemma matchCls_quote_none:
  assumes "set (fst (snd st)) \<inter> set quoteChars = {}"
  shows "matchCls (OneOf quoteChars) st = []"
proof -
  obtain p s caps where st: "st = (p, s, caps)" by (cases st)
  show ?thesis using assms unfolding st by (cases s) auto
qed

lemma rmatch_SeqE:
  "st \<in> set (rmatch (Seq r1 r2) s0) \<Longrightarrow> \<exists>s1 \<in> set (rmatch r1 s0). st \<in> set (rmatch r2 s1)"
  by auto

lemma runs_whole:
  assumes "\<forall>x \<in> set m. inClass k x" and "m \<noteq> []" and "\<not> inClass k c"
  shows "\<exists>ys. runs k (p, m @ c # r, caps) = ys @ [(Some (last m), c # r, caps)]"
  using assms
proof (induction m arbitrary: p)
  case Nil
  then show ?case by simp
next
  case (Cons x xs)
  show ?case
  proof (cases xs)
    case Nil
    then show ?thesis using Cons.prems by simp
  next
    case (Cons y ys)
    then obtain zs where "runs k (Some x, xs @ c # r, caps) = zs @ [(Some (last xs), c # r, caps)]"
      using Cons.IH [of "Some x"] Cons.prems by auto
    then have "runs k (p, (x # xs) @ c # r, caps)
        = ((Some x, xs @ c # r, caps) # zs) @ [(Some (last (x # xs)), c # r, caps)]"
      using Cons.prems Cons by simp
    then show ?thesis by blast
  qed
qed

lemma matchLit_Nil_iff: "(matchLit l (p, v, caps) = []) = (\<not> startsWith v l)"
proof (induction l arbitrary: p v)
  case Nil
  then show ?case by (simp add: startsWith_def)
next
  case (Cons c cs)
  show ?case
  proof (cases v)
    case Nil
    then show ?thesis by (simp add: startsWith_def)
  next
    case (Cons x xs)
    then show ?thesis
      using Cons.IH [of "Some x" xs] by (auto simp: startsWith_def)
  qed
qed

lemma quote_facts:
  assumes "q \<in> set quoteChars"
  shows "\<not> isSpace q" "\<not> isWord q" "q \<noteq> CHR ''t''" "q \<noteq> CHR ''i''"
  using assms by (auto simp: quoteChars_def isSpace_def isWord_def)

lemma isSpace_space: "isSpace CHR '' ''"
  by (simp add: isSpace_def)

section \<open>Properties of the import merger\<close>

lemma modulePart_unclosed:
  assumes "set post \<inter> set quoteChars = {}"
  shows "rmatch importModulePart (p, c # post, caps) = []"
proof -
  have "matchCls (OneOf quoteChars) (setCapture n st0 st) = []"
    if "st \<in> set (runs (NoneOf quoteChars) (p', post, caps'))" for st st0 n p' caps'
  proof -
    have "set (fst (snd st)) \<subseteq> set post"
      using that by (rule runs_rest_subset)
    with assms have "set (fst (snd (setCapture n st0 st))) \<inter> set quoteChars = {}"
      unfolding setCapture_rest by blast
    then show ?thesis by (rule matchCls_quote_none)
  qed
  then show ?thesis
    by (auto simp: importModulePart_def)
qed

lemma modulePart_fails_after_opening:
  assumes m: "set m \<inter> set quoteChars = {}" and post: "set post \<inter> set quoteChars = {}"
    and eq: "m @ q' # post = u @ v"
  shows "rmatch importModulePart (p, v, caps) = []"
proof (cases v)
  case Nil
  then show ?thesis by (simp add: importModulePart_def)
next
  case (Cons c v')
  show ?thesis
  proof (cases "c \<in> set quoteChars")
    case False
    then show ?thesis unfolding Cons by (simp add: importModulePart_def)
  next
    case True
    have "filter (\<lambda>x. x \<in> set quoteChars) (m @ q' # post)
        = filter (\<lambda>x. x \<in> set quoteChars) (u @ c # v')"
      using eq Cons by simp
    moreover have "filter (\<lambda>x. x \<in> set quoteChars) m = []"
      using m by (auto simp: filter_empty_conv)
    moreover have "filter (\<lambda>x. x \<in> set quoteChars) post = []"
      using post by (auto simp: filter_empty_conv)
    ultimately have "length (filter (\<lambda>x. x \<in> set quoteChars) u)
        + Suc (length (filter (\<lambda>x. x \<in> set quoteChars) v')) \<le> 1"
      using True by (auto split: if_splits dest: arg_cong [where f = length])
    then have "filter (\<lambda>x. x \<in> set quoteChars) v' = []"
      by simp
    then have "set v' \<inter> set quoteChars = {}"
      by (auto simp: filter_empty_conv)
    then show ?thesis
      unfolding Cons by (rule modulePart_unclosed)
  qed
qed

lemma clausePart_proper:
  assumes "st \<in> set (rmatch importClausePart (p, c # w, caps))"
  shows "\<exists>u. w = u @ fst (snd st)"
proof -
  from assms obtain sa where sa: "sa \<in> set (rmatch (Group 1 (LazyStar AnyChar)) (p, c # w, caps))"
    and "st \<in> set (rmatch (Seq (Plus Space) (Seq (Lit ''from'') (Plus Space))) sa)"
    unfolding importClausePart_def by (blast dest: rmatch_SeqE)
  then obtain sb' where "sb' \<in> set (rmatch (Plus Space) sa)"
    and st: "st \<in> set (rmatch (Seq (Lit ''from'') (Plus Space)) sb')"
    by (blast dest: rmatch_SeqE)
  then obtain sb where sb: "sb \<in> set (runs Space sa)"
    and st: "st \<in> set (rmatch (Seq (Lit ''from'') (Plus Space)) sb)"
    by auto
  obtain u1 where u1: "c # w = u1 @ fst (snd sa)"
    using rmatch_suffix [OF sa] by auto
  obtain u2 where u2: "u2 \<noteq> []" "fst (snd sa) = u2 @ fst (snd sb)"
    using runs_suffix' [OF sb] by blast
  obtain u3 where u3: "fst (snd sb) = u3 @ fst (snd st)"
    using rmatch_suffix [OF st] by blast
  have "c # w = (u1 @ u2 @ u3) @ fst (snd st)"
    using u1 u2 u3 by simp
  moreover have "u1 @ u2 @ u3 \<noteq> []"
    using u2 by simp
  ultimately obtain u' where "u1 @ u2 @ u3 = c # u'"
    by (cases "u1 @ u2 @ u3") auto
  with \<open>c # w = (u1 @ u2 @ u3) @ fst (snd st)\<close> have "w = u' @ fst (snd st)"
    by simp
  then show ?thesis by blast
qed

lemma modulePart_matches:
  assumes "q \<in> set quoteChars" and "q' \<in> set quoteChars" and "m \<noteq> []"
    and "set m \<inter> set quoteChars = {}"
  shows "\<exists>p' r' rs. rmatch importModulePart (p, q # m @ q' # post, []) = (p', r', [(2, m)]) # rs"
proof -
  have "\<forall>x \<in> set m. inClass (NoneOf quoteChars) x"
    using assms(4) by auto
  moreover have "\<not> inClass (NoneOf quoteChars) q'"
    using assms(2) by simp
  ultimately obtain ys where
    ys: "runs (NoneOf quoteChars) (Some q, m @ q' # post, []) = ys @ [(Some (last m), q' # post, [])]"
    using runs_whole [OF _ assms(3)] by blast
  have "rmatch (Opt (Lit '';'')) st \<noteq> []" for st
    by simp
  then obtain z zs where z: "rmatch (Opt (Lit '';'')) (Some q', post, [(2, m)]) = z # zs"
    by (cases "rmatch (Opt (Lit '';'')) (Some q', post, [(2, m)])") auto
  have caps: "\<And>st'. st' \<in> set (rmatch (Opt (Lit '';'')) (Some q', post, [(2, m)]))
      \<Longrightarrow> snd (snd st') = [(2, m)]"
    by (cases post) (auto split: if_splits)
  have "z \<in> set (z # zs)"
    by simp
  then have "z \<in> set (rmatch (Opt (Lit '';'')) (Some q', post, [(2, m)]))"
    by (simp only: z)
  then have "snd (snd z) = [(2, m)]"
    by (rule caps)
  then obtain p' r' where "z = (p', r', [(2, m)])"
    by (cases z) auto
  then show ?thesis
    using assms(1,2) ys z by (simp add: importModulePart_def)
qed

lemma importRegex_side_effect:
  assumes q: "q \<in> set quoteChars" and q': "q' \<in> set quoteChars" and "m \<noteq> []"
    and m: "set m \<inter> set quoteChars = {}" and post: "set post \<inter> set quoteChars = {}"
  shows "strMatch (''import '' @ q # m @ q' # post) importRegex = Some [(2, m)]"
proof -
  let ?st1 = "(Some CHR '' '', q # m @ q' # post, [])"
  have clause: "concat (map (rmatch importModulePart) (rmatch importClausePart ?st1)) = []"
  proof -
    have "rmatch importModulePart st = []" if inC: "st \<in> set (rmatch importClausePart ?st1)" for st
    proof -
      obtain u where "m @ q' # post = u @ fst (snd st)"
        using clausePart_proper [OF inC] by blast
      then have "rmatch importModulePart (fst st, fst (snd st), snd (snd st)) = []"
        by (rule modulePart_fails_after_opening [OF m post])
      then show ?thesis by simp
    qed
    then show ?thesis by simp
  qed
  obtain p' r' rs where
    tail: "rmatch importModulePart ?st1 = (p', r', [(2, m)]) # rs"
    using modulePart_matches [OF q q' assms(3) m] by blast
  have "rmatch importRegex (None, ''import '' @ q # m @ q' # post, [])
      = concat (map (rmatch importModulePart) (rmatch importClausePart ?st1))
          @ rmatch importModulePart ?st1"
    using quote_facts [OF q] by (simp add: importRegex_def isSpace_space)
  then have "rmatch importRegex (None, ''import '' @ q # m @ q' # post, [])
      = (p', r', [(2, m)]) # rs"
    using clause tail by simp
  then have "rexec importRegex None (''import '' @ q # m @ q' # post) = Some (p', r', [(2, m)])"
    by simp
  then show ?thesis
    by (simp add: strMatch_def)
qed

lemma defaultRegex_no_import:
  assumes "\<not> strIncludes v ''import''"
  shows "rexec defaultRegex p v = None"
  using assms
proof (induction v arbitrary: p)
  case Nil
  then show ?case by (simp add: defaultRegex_def)
next
  case (Cons c cs)
  then have nst: "\<not> startsWith (c # cs) ''import''" and rest: "\<not> strIncludes cs ''import''"
    by simp_all
  have "matchLit ''import'' (p, c # cs, []) = []"
    unfolding matchLit_Nil_iff by (rule nst)
  then have "rmatch defaultRegex (p, c # cs, []) = []"
    by (simp add: defaultRegex_def)
  then show ?case
    using Cons.IH [OF rest] by simp
qed

lemma defaultRegex_side_effect:
  assumes q: "q \<in> set quoteChars" and "\<not> strIncludes w ''import''"
  shows "strMatch (''import '' @ q # w) defaultRegex = None"
proof -
  have "rexec defaultRegex p w = None" for p
    using assms(2) by (rule defaultRegex_no_import)
  then have "rexec defaultRegex None (''import '' @ q # w) = None"
    using quote_facts [OF q] by (simp add: defaultRegex_def isSpace_space)
  then show ?thesis
    by (simp add: strMatch_def)
qed

lemma parseImport_skip:
  assumes "strMatch s importRegex = None \<or>
    (\<exists>caps. strMatch s importRegex = Some caps \<and> capture caps 1 = []
       \<and> strMatch s defaultRegex = None) \<or>
    (\<exists>q m q' post. s = ''import '' @ q # m @ q' # post
       \<and> q \<in> set quoteChars \<and> q' \<in> set quoteChars \<and> m \<noteq> []
       \<and> set m \<inter> set quoteChars = {} \<and> set post \<inter> set quoteChars = {}
       \<and> \<not> strIncludes (m @ q' # post) ''import'')"
  shows "parseImport s maps = maps"
proof -
  have "strMatch s importRegex = None \<or>
    (\<exists>caps. strMatch s importRegex = Some caps \<and> capture caps 1 = []
       \<and> strMatch s defaultRegex = None)"
    using assms
  proof (elim disjE exE conjE)
    fix q m q' post
    assume s: "s = ''import '' @ q # m @ q' # post"
      and q: "q \<in> set quoteChars" "q' \<in> set quoteChars" and "m \<noteq> []"
      and m: "set m \<inter> set quoteChars = {}" and post: "set post \<inter> set quoteChars = {}"
      and no: "\<not> strIncludes (m @ q' # post) ''import''"
    have "strMatch s importRegex = Some [(2, m)]"
      unfolding s using q \<open>m \<noteq> []\<close> m post by (rule importRegex_side_effect)
    moreover have "capture [(2, m)] 1 = []"
      by (simp add: capture_def)
    moreover have "strMatch s defaultRegex = None"
      unfolding s using q(1) no by (rule defaultRegex_side_effect)
    ultimately show ?thesis by blast
  qed blast+
  then show ?thesis
    by (auto simp: parseImport_def Let_def)
qed

text \<open>
  C1 (the merger keeps only the value form of a name imported both as a value and as a
  type): the code decides "type import" by \<open>importStr.includes("import type")\<close>, which
  is also true of a value import whose default name begins with \<open>type\<close>.  For the
  default name \<open>typescript\<close>, imported as a value and as a type from one module path,
  the merged output is the type-only statement alone: the value form is lost.
\<close>

theorem mergeImports_type_prefixed_default_name:
  \<open>mergeImports [''import typescript from "typescript";'',
                  ''import type typescript from "typescript";'']
     = [''import type typescript from "typescript";'']\<close>
  by code_simp

text \<open>
  C2 (every binding name of the input appears in the output): the import pattern's
  clause \<open>(.*?)\<close> cannot cross a line break, so a named import written over several
  lines does not match, is skipped, and its names \<open>a\<close> and \<open>b\<close> appear nowhere in the
  output.
\<close>

theorem mergeImports_multiline_named_import:
  \<open>mergeImports [''import {\<newline>  a,\<newline>  b\<newline>} from "m";''] = []\<close>
  by code_simp

text \<open>
  Statements the parser leaves out.  A statement that the import pattern does not match,
  or that it matches without an import clause and without a name after \<open>import\<close>, leaves
  the five maps as they are; the output is the output without the statement.  A
  side-effect import, the word \<open>import\<close>, one space and a quoted module name (quote-free,
  and with no further \<open>import\<close> in the text that follows the opening quote), is such a
  statement.  \<open>mergeImports\<close> has no failing branch: the model is a total function, as the
  source has no \<open>throw\<close> and guards every lookup.
\<close>

theorem mergeImports_skips_unmatched:
  assumes "strMatch s importRegex = None \<or>
    (\<exists>caps. strMatch s importRegex = Some caps \<and> capture caps 1 = []
       \<and> strMatch s defaultRegex = None) \<or>
    (\<exists>q m q' post. s = ''import '' @ q # m @ q' # post
       \<and> q \<in> set quoteChars \<and> q' \<in> set quoteChars \<and> m \<noteq> []
       \<and> set m \<inter> set quoteChars = {} \<and> set post \<inter> set quoteChars = {}
       \<and> \<not> strIncludes (m @ q' # post) ''import'')"
  shows "mergeImports (xs @ s # ys) = mergeImports (xs @ ys)"
proof -
  have "fold parseImport (xs @ s # ys) emptyMaps = fold parseImport (xs @ ys) emptyMaps"
    using parseImport_skip [OF assms] by simp
  then show ?thesis
    by (simp add: mergeImports_def)
qed

text \<open>
  The hypotheses hold of the side-effect import \<^verbatim>\<open>import "module";\<close> and of the
  import-equals statement \<^verbatim>\<open>import fs = require("fs");\<close>.
\<close>

theorem mergeImports_skips_unmatched_witness:
  \<open>strMatch ''import "module";'' importRegex = Some [(2, ''module'')]
   \<and> capture [(2, ''module'')] 1 = []
   \<and> strMatch ''import "module";'' defaultRegex = None
   \<and> mergeImports ([''import { a } from "m";''] @ ''import "module";'' # [''import b from "n";''])
       = mergeImports ([''import { a } from "m";''] @ [''import b from "n";''])
   \<and> strMatch ''import fs = require("fs");'' importRegex = None
   \<and> mergeImports ([] @ ''import fs = require("fs");'' # [''import b from "n";''])
       = mergeImports ([] @ [''import b from "n";''])\<close>
proof -
  have a: \<open>strMatch ''import "module";'' importRegex = Some [(2, ''module'')]\<close>
    by code_simp
  have b: \<open>capture [(2, ''module'')] 1 = []\<close>
    by code_simp
  have c: \<open>strMatch ''import "module";'' defaultRegex = None\<close>
    by code_simp
  have d: \<open>strMatch ''import fs = require("fs");'' importRegex = None\<close>
    by code_simp
  show ?thesis
    using a b c d
      mergeImports_skips_unmatched [of \<open>''import "module";''\<close>
        \<open>[''import { a } from "m";'']\<close> \<open>[''import b from "n";'']\<close>]
      mergeImports_skips_unmatched [of \<open>''import fs = require("fs");''\<close>
        \<open>[]\<close> \<open>[''import b from "n";'']\<close>]
    by blast
qed

text \<open>
  C9: a side-effect import matches the import pattern with no import clause, and the
  branch for it (\<open>Default import or side-effect import\<close>) looks for a default name with
  \<^verbatim>\<open>/import\s+(?:type\s+)?(\w+)/\<close>.  That pattern is not tied to the start of the
  statement and searches the quoted module name as well: \<^verbatim>\<open>import "import foo";\<close> binds no
  name, yet \<open>foo\<close> is recorded as a default import of the module and a statement that was
  never written is emitted.  \<^verbatim>\<open>import "module";\<close> is skipped, as the claim says.
\<close>

theorem mergeImports_side_effect_import_yields_default:
  \<open>strMatch ''import "import foo";'' importRegex = Some [(2, ''import foo'')]
   \<and> strMatch ''import "import foo";'' defaultRegex = Some [(1, ''foo'')]
   \<and> mergeImports [''import "import foo";''] = [''import foo from "import foo";'']
   \<and> mergeImports [''import "module";''] = []\<close>
  by code_simp

subsection \<open>The maps and the emitting loops\<close>

lemma setAdd_distinct: "distinct ns \<Longrightarrow> distinct (setAdd n ns)"
  by (simp add: setAdd_def)

lemma set_setAdd: "set (setAdd n ns) = insert n (set ns)"
  by (auto simp: setAdd_def)

lemma uniqueEntries_ensureKey: "uniqueEntries m \<Longrightarrow> uniqueEntries (ensureKey k m)"
  by (auto simp: uniqueEntries_def ensureKey_def map_of_eq_None_iff)

lemma list_all_update:
  "list_all P m \<Longrightarrow> P (k, v) \<Longrightarrow> list_all P (AList.update k v m)"
  by (induction m) auto

lemma uniqueEntries_addTo:
  assumes "uniqueEntries m"
  shows "uniqueEntries (addTo k n m)"
proof (cases "map_of m k")
  case None
  then show ?thesis using assms by (simp add: addTo_def)
next
  case (Some ns)
  then have "(k, ns) \<in> set m" by (rule map_of_SomeD)
  then have "distinct ns"
    using assms by (auto simp: uniqueEntries_def list_all_iff)
  then have "distinct (setAdd n ns)" by (rule setAdd_distinct)
  then show ?thesis
    using assms Some
    by (simp add: addTo_def uniqueEntries_def distinct_update list_all_update)
qed

lemma uniqueEntries_fold_addTo:
  "uniqueEntries m \<Longrightarrow> uniqueEntries (fold (addTo k) ns m)"
  by (induction ns arbitrary: m) (simp_all add: uniqueEntries_addTo)

lemma wellFormed_updNamed:
  assumes "wellFormedMaps maps" and "\<And>m. uniqueEntries m \<Longrightarrow> uniqueEntries (f m)"
  shows "wellFormedMaps (updNamed t f maps)"
  using assms by (simp add: wellFormedMaps_def updNamed_def)

lemma wellFormed_updDefault:
  assumes "wellFormedMaps maps" and "\<And>m. uniqueEntries m \<Longrightarrow> uniqueEntries (f m)"
  shows "wellFormedMaps (updDefault t f maps)"
  using assms by (simp add: wellFormedMaps_def updDefault_def)

lemma wellFormed_namespace:
  assumes "wellFormedMaps maps"
  shows "wellFormedMaps (maps\<lparr>namespaceImports := addTo k n (ensureKey k (namespaceImports maps))\<rparr>)"
  using assms by (simp add: wellFormedMaps_def uniqueEntries_addTo uniqueEntries_ensureKey)

lemma wellFormed_parseImport:
  assumes "wellFormedMaps maps"
  shows "wellFormedMaps (parseImport s maps)"
  unfolding parseImport_def Let_def
  by (auto split: option.splits
      intro!: wellFormed_updNamed wellFormed_updDefault wellFormed_namespace assms
        uniqueEntries_addTo uniqueEntries_ensureKey uniqueEntries_fold_addTo)

lemma wellFormed_fold:
  "wellFormedMaps maps \<Longrightarrow> wellFormedMaps (fold parseImport xs maps)"
  by (induction xs arbitrary: maps) (simp_all add: wellFormed_parseImport)

lemma set_finalNames: "set (finalNames regs types) = set regs \<union> set types"
proof -
  have "set (fold (\<lambda>t acc. if t \<in> R then acc else setAdd t acc) types acc)
      = set acc \<union> (set types - R)" for R acc
    by (induction types arbitrary: acc) (auto simp: set_setAdd)
  then show ?thesis by (auto simp: finalNames_def)
qed

lemma distinct_finalNames:
  assumes "distinct regs"
  shows "distinct (finalNames regs types)"
proof -
  have "distinct acc \<Longrightarrow> distinct (fold (\<lambda>t acc. if t \<in> R then acc else setAdd t acc) types acc)"
    for R acc
    by (induction types arbitrary: acc) (auto simp: setAdd_distinct)
  with assms show ?thesis by (simp add: finalNames_def)
qed

text \<open>
  The invariant of the parsing loop, for any list of statements: in each of the five
  maps every module path has one entry, and no entry lists a name twice.  Each emitting
  loop walks one map and emits at most one statement per entry, so at most one
  statement is emitted per module path and import kind; the names joined into a named
  statement are distinct as well.
\<close>

theorem parsed_maps_well_formed:
  "wellFormedMaps (fold parseImport stmts emptyMaps)
   \<and> list_all (\<lambda>entry. distinct (finalNames (snd entry)
         (getOrEmpty (typeImportMap (fold parseImport stmts emptyMaps)) (fst entry))))
       (importMap (fold parseImport stmts emptyMaps))"
proof -
  have "wellFormedMaps emptyMaps"
    by (simp add: wellFormedMaps_def emptyMaps_def uniqueEntries_def)
  then have wf: "wellFormedMaps (fold parseImport stmts emptyMaps)"
    by (rule wellFormed_fold)
  then have "list_all (\<lambda>entry. distinct (snd entry))
      (importMap (fold parseImport stmts emptyMaps))"
    by (simp add: wellFormedMaps_def uniqueEntries_def)
  then have "list_all (\<lambda>entry. distinct (finalNames (snd entry)
         (getOrEmpty (typeImportMap (fold parseImport stmts emptyMaps)) (fst entry))))
       (importMap (fold parseImport stmts emptyMaps))"
    by (simp add: list_all_iff distinct_finalNames)
  with wf show ?thesis by (intro conjI)
qed

lemma concat_map_filter_irrelevant:
  assumes "\<And>x. x \<in> set xs \<Longrightarrow> \<not> P x \<Longrightarrow> g x = []"
  shows "concat (map g (filter P xs)) = concat (map g xs)"
  using assms by (induction xs) auto

text \<open>
  The emitting loops on any maps: when a module path has an entry of named value
  imports and an entry of named type imports, the value statement for the module path
  lists every type name, and the type-only loop emits what it would emit if the module
  path had no type entry at all.
\<close>

theorem value_names_dominate_type_names:
  assumes "map_of (importMap maps) m = Some regs"
    and "map_of (typeImportMap maps) m = Some types"
    and "n \<in> set types"
  shows "namedStatement m (finalNames regs types) \<in> set (emitNamed maps)
    \<and> n \<in> set (finalNames regs types)
    \<and> emitTypeNamed maps
        = emitTypeNamed (maps\<lparr>typeImportMap := AList.delete m (typeImportMap maps)\<rparr>)"
proof -
  have n: "n \<in> set (finalNames regs types)"
    using assms(3) by (simp add: set_finalNames)
  then have ne: "0 < length (finalNames regs types)"
    by (cases "finalNames regs types") auto
  have "(m, regs) \<in> set (importMap maps)"
    using assms(1) by (rule map_of_SomeD)
  then have a: "namedStatement m (finalNames regs types) \<in> set (emitNamed maps)"
    using ne assms(2) unfolding emitNamed_def
    by (auto simp: getOrEmpty_def Let_def intro!: bexI [of _ "(m, regs)"])
  have b: "emitTypeNamed maps
        = emitTypeNamed (maps\<lparr>typeImportMap := AList.delete m (typeImportMap maps)\<rparr>)"
    unfolding emitTypeNamed_def AList.delete_eq
    by (simp add: split_def, rule concat_map_filter_irrelevant [symmetric])
      (use assms(1) in auto)
  from a n b show ?thesis by (intro conjI)
qed

text \<open>The same for the default imports.\<close>

theorem value_default_names_dominate_type_names:
  assumes "map_of (defaultImports maps) m = Some regs"
    and "map_of (typeDefaultImports maps) m = Some types"
    and "n \<in> set types"
  shows "defaultStatement m (finalNames regs types) \<in> set (emitDefault maps)
    \<and> n \<in> set (finalNames regs types)
    \<and> emitTypeDefault maps
        = emitTypeDefault (maps\<lparr>typeDefaultImports := AList.delete m (typeDefaultImports maps)\<rparr>)"
proof -
  have n: "n \<in> set (finalNames regs types)"
    using assms(3) by (simp add: set_finalNames)
  then have ne: "0 < length (finalNames regs types)"
    by (cases "finalNames regs types") auto
  have "(m, regs) \<in> set (defaultImports maps)"
    using assms(1) by (rule map_of_SomeD)
  then have a: "defaultStatement m (finalNames regs types) \<in> set (emitDefault maps)"
    using ne assms(2) unfolding emitDefault_def
    by (auto simp: getOrEmpty_def Let_def intro!: bexI [of _ "(m, regs)"])
  have b: "emitTypeDefault maps
        = emitTypeDefault (maps\<lparr>typeDefaultImports := AList.delete m (typeDefaultImports maps)\<rparr>)"
    unfolding emitTypeDefault_def AList.delete_eq
    by (simp add: split_def, rule concat_map_filter_irrelevant [symmetric])
      (use assms(1) in auto)
  from a n b show ?thesis by (intro conjI)
qed

text \<open>The hypotheses hold of the maps parsed from a value and a type import of \<open>a\<close>.\<close>

theorem value_names_dominate_type_names_witness:
  \<open>map_of (importMap (fold parseImport
        [''import { a } from "m";'', ''import type { a, T } from "m";''] emptyMaps)) ''m''
     = Some [''a'']
   \<and> map_of (typeImportMap (fold parseImport
        [''import { a } from "m";'', ''import type { a, T } from "m";''] emptyMaps)) ''m''
     = Some [''a'', ''T'']
   \<and> namedStatement ''m'' (finalNames [''a''] [''a'', ''T''])
       \<in> set (emitNamed (fold parseImport
        [''import { a } from "m";'', ''import type { a, T } from "m";''] emptyMaps))
   \<and> mergeImports [''import { a } from "m";'', ''import type { a, T } from "m";'']
       = [''import { T, a } from "m";'']\<close>
proof -
  have a: \<open>map_of (importMap (fold parseImport
        [''import { a } from "m";'', ''import type { a, T } from "m";''] emptyMaps)) ''m''
     = Some [''a'']\<close>
    by code_simp
  have b: \<open>map_of (typeImportMap (fold parseImport
        [''import { a } from "m";'', ''import type { a, T } from "m";''] emptyMaps)) ''m''
     = Some [''a'', ''T'']\<close>
    by code_simp
  have c: "''T'' \<in> set [''a'', ''T'']"
    by simp
  have d: \<open>mergeImports [''import { a } from "m";'', ''import type { a, T } from "m";'']
       = [''import { T, a } from "m";'']\<close>
    by code_simp
  from value_names_dominate_type_names [OF a b c] a b d show ?thesis
    by (intro conjI) (elim conjE, assumption)+
qed

text \<open>
  The hypotheses hold of the maps parsed from the header comment's example, the value
  and the type import of the default name \<open>ts\<close>.
\<close>

theorem value_default_names_dominate_type_names_witness:
  \<open>map_of (defaultImports (fold parseImport
        [''import ts from "typescript";'', ''import type ts from "typescript";''] emptyMaps))
       ''typescript'' = Some [''ts'']
   \<and> map_of (typeDefaultImports (fold parseImport
        [''import ts from "typescript";'', ''import type ts from "typescript";''] emptyMaps))
       ''typescript'' = Some [''ts'']
   \<and> defaultStatement ''typescript'' (finalNames [''ts''] [''ts''])
       \<in> set (emitDefault (fold parseImport
        [''import ts from "typescript";'', ''import type ts from "typescript";''] emptyMaps))
   \<and> mergeImports [''import ts from "typescript";'', ''import type ts from "typescript";'']
       = [''import ts from "typescript";'']\<close>
proof -
  have a: \<open>map_of (defaultImports (fold parseImport
        [''import ts from "typescript";'', ''import type ts from "typescript";''] emptyMaps))
       ''typescript'' = Some [''ts'']\<close>
    by code_simp
  have b: \<open>map_of (typeDefaultImports (fold parseImport
        [''import ts from "typescript";'', ''import type ts from "typescript";''] emptyMaps))
       ''typescript'' = Some [''ts'']\<close>
    by code_simp
  have c: "''ts'' \<in> set [''ts'']"
    by simp
  have d: \<open>mergeImports [''import ts from "typescript";'', ''import type ts from "typescript";'']
       = [''import ts from "typescript";'']\<close>
    by code_simp
  from value_default_names_dominate_type_names [OF a b c] a b d show ?thesis
    by (intro conjI) (elim conjE, assumption)+
qed

section \<open>Properties of the dialect compilers\<close>

lemma replaceFirst_absent:
  assumes "\<forall>u v. s \<noteq> u @ pat @ v"
  shows "replaceFirst pat rep s = s"
  using assms
proof (induction s)
  case Nil
  then show ?case by (cases pat) auto
next
  case (Cons c cs)
  have "take (length pat) (c # cs) \<noteq> pat"
  proof
    assume h: "take (length pat) (c # cs) = pat"
    have "c # cs = [] @ pat @ drop (length pat) (c # cs)"
      using h append_take_drop_id [of "length pat" "c # cs"] by simp
    with Cons.prems show False by blast
  qed
  moreover have "\<forall>u v. cs \<noteq> u @ pat @ v"
  proof (intro allI notI)
    fix u v assume "cs = u @ pat @ v"
    then have "c # cs = (c # u) @ pat @ v" by simp
    with Cons.prems show False by blast
  qed
  ultimately show ?case using Cons.IH by simp
qed

lemma replaceFirst_prefix: "replaceFirst pat rep (pat @ post) = rep @ post"
proof (cases "pat @ post")
  case Nil
  then show ?thesis by simp
next
  case (Cons a list)
  have "take (length pat) (pat @ post) = pat" "drop (length pat) (pat @ post) = post"
    by simp_all
  then show ?thesis
    using Cons by (metis replaceFirst.simps(2))
qed

lemma replaceFirst_first:
  assumes "\<forall>u v. pre @ pat @ post = u @ pat @ v \<longrightarrow> length pre \<le> length u"
  shows "replaceFirst pat rep (pre @ pat @ post) = pre @ rep @ post"
  using assms
proof (induction pre)
  case Nil
  show ?case using replaceFirst_prefix by simp
next
  case (Cons c cs)
  have ne: "take (length pat) ((c # cs) @ pat @ post) \<noteq> pat"
  proof
    assume h: "take (length pat) ((c # cs) @ pat @ post) = pat"
    have "(c # cs) @ pat @ post = [] @ pat @ drop (length pat) ((c # cs) @ pat @ post)"
      using h append_take_drop_id [of "length pat" "(c # cs) @ pat @ post"] by simp
    with Cons.prems have "length (c # cs) \<le> length ([]::string)" by blast
    then show False by simp
  qed
  have "\<forall>u v. cs @ pat @ post = u @ pat @ v \<longrightarrow> length cs \<le> length u"
  proof (intro allI impI)
    fix u v assume "cs @ pat @ post = u @ pat @ v"
    then have "(c # cs) @ pat @ post = (c # u) @ pat @ v" by simp
    with Cons.prems have "length (c # cs) \<le> length (c # u)" by blast
    then show "length cs \<le> length u" by simp
  qed
  with Cons.IH have "replaceFirst pat rep (cs @ pat @ post) = cs @ rep @ post" by blast
  with ne show ?case by simp
qed

lemma endsWithE: "endsWith s suffix \<Longrightarrow> \<exists>x. s = x @ suffix"
  unfolding endsWith_def by (metis append_take_drop_id)

lemma gsub_append_tail:
  assumes A: "\<And>p x. x \<noteq> [] \<Longrightarrow>
        rmatch r (p, x @ t, []) = map (\<lambda>(p', s', c). (p', s' @ t, c)) (rmatch r (p, x, []))"
    and B: "\<And>p. gsub r rep p t = t'"
    and C: "\<And>p. rmatch r (p, [], []) = []"
  shows "gsub r rep p (x @ t) = gsub r rep p x @ t'"
proof (induction "length x" arbitrary: x p rule: less_induct)
  case less
  show ?case
  proof (cases x)
    case Nil
    have "gsub r rep p [] = []"
      by (subst gsub.simps) (simp add: C)
    with Nil show ?thesis by (simp add: B)
  next
    case xc: (Cons c cs)
    have A': "rmatch r (p, x @ t, []) =
        map (\<lambda>(p', s', c). (p', s' @ t, c)) (rmatch r (p, x, []))"
      by (rule A) (simp add: xc)
    have IHcs: "gsub r rep (Some c) (cs @ t) = gsub r rep (Some c) cs @ t'"
      using less [of cs "Some c"] xc by simp
    show ?thesis
    proof (cases "rmatch r (p, x, [])")
      case Nil
      then have "rmatch r (p, x @ t, []) = []"
        using A' by simp
      then have "gsub r rep p (x @ t) = c # gsub r rep (Some c) (cs @ t)"
        using xc by (subst gsub.simps) simp
      moreover have "gsub r rep p x = c # gsub r rep (Some c) cs"
        using Nil xc by (subst gsub.simps) simp
      ultimately show ?thesis
        using IHcs by simp
    next
      case mc: (Cons st sts)
      obtain p' s' caps where st: "st = (p', s', caps)"
        by (cases st)
      have m1: "rmatch r (p, x @ t, []) =
          (p', s' @ t, caps) # map (\<lambda>(p', s', c). (p', s' @ t, c)) sts"
        using A' mc st by simp
      show ?thesis
      proof (cases "length s' < length x")
        case True
        have "gsub r rep p (x @ t) = rep @ gsub r rep p' (s' @ t)"
          using m1 True by (subst gsub.simps) simp
        moreover have "gsub r rep p x = rep @ gsub r rep p' s'"
          using mc st True by (subst gsub.simps) simp
        moreover have "gsub r rep p' (s' @ t) = gsub r rep p' s' @ t'"
          using less [of s' p'] True by simp
        ultimately show ?thesis by simp
      next
        case False
        have "gsub r rep p (x @ t) = rep @ c # gsub r rep (Some c) (cs @ t)"
          using m1 False xc by (subst gsub.simps) simp
        moreover have "gsub r rep p x = rep @ c # gsub r rep (Some c) cs"
          using mc st False xc by (subst gsub.simps) simp
        ultimately show ?thesis
          using IHcs by simp
      qed
    qed
  qed
qed

lemma list_upto3:
  obtains "x = []" | a where "x = [a]" | a b where "x = [a, b]"
  | a b c r where "x = a # b # c # r"
  by (metis list.exhaust)

lemma rmatch_js_tail:
  assumes "x \<noteq> []"
  shows "rmatch jsRegex (p, x @ CHR ''.'' # t, []) =
     map (\<lambda>(p', s', c). (p', s' @ CHR ''.'' # t, c)) (rmatch jsRegex (p, x, []))"
  using assms by (cases x rule: list_upto3) (auto simp: jsRegex_def)

lemma list_upto5:
  obtains "x = []" | a where "x = [a]" | a b where "x = [a, b]"
  | a b c where "x = [a, b, c]" | a b c d where "x = [a, b, c, d]"
  | a b c d e r where "x = a # b # c # d # e # r"
  by (metis list.exhaust)

lemma list_upto7:
  obtains "x = []" | a where "x = [a]" | a b where "x = [a, b]"
  | a b c where "x = [a, b, c]" | a b c d where "x = [a, b, c, d]"
  | a b c d e where "x = [a, b, c, d, e]" | a b c d e f where "x = [a, b, c, d, e, f]"
  | a b c d e f g r where "x = a # b # c # d # e # f # g # r"
  by (metis list.exhaust)

lemma rmatch_mapJs_tail:
  assumes "x \<noteq> []" and "u \<noteq> CHR ''j''"
  shows "rmatch mapJsRegex (p, x @ CHR ''.'' # u # t, []) =
     map (\<lambda>(p', s', c). (p', s' @ CHR ''.'' # u # t, c)) (rmatch mapJsRegex (p, x, []))"
  using assms by (cases x rule: list_upto7) (auto simp: mapJsRegex_def)

lemma rmatch_dts_tail:
  assumes "x \<noteq> []" and "u \<noteq> CHR ''t''"
  shows "rmatch dtsRegex (p, x @ CHR ''.'' # u # t, []) =
     map (\<lambda>(p', s', c). (p', s' @ CHR ''.'' # u # t, c)) (rmatch dtsRegex (p, x, []))"
  using assms by (cases x rule: list_upto5) (auto simp: dtsRegex_def)

lemma rmatch_empty [simp]:
  "rmatch jsRegex (p, [], []) = []" "rmatch mapJsRegex (p, [], []) = []"
  "rmatch dtsRegex (p, [], []) = []"
  by (simp_all add: jsRegex_def mapJsRegex_def dtsRegex_def)

lemma isLT_simps [simp]: "\<not> isLineTerminator CHR ''.''"
  by (simp add: isLineTerminator_def)

lemma js_tail:
  assumes "\<And>p. gsub jsRegex rep p (CHR ''.'' # t) = t'"
  shows "gsub jsRegex rep p (x @ CHR ''.'' # t) = gsub jsRegex rep p x @ t'"
  by (rule gsub_append_tail) (simp_all add: rmatch_js_tail assms)

lemma mapJs_tail:
  assumes "\<And>p. gsub mapJsRegex rep p (CHR ''.'' # u # t) = t'" and "u \<noteq> CHR ''j''"
  shows "gsub mapJsRegex rep p (x @ CHR ''.'' # u # t) = gsub mapJsRegex rep p x @ t'"
  by (rule gsub_append_tail) (simp_all add: rmatch_mapJs_tail assms)

lemma dts_tail:
  assumes "\<And>p. gsub dtsRegex rep p (CHR ''.'' # u # t) = t'" and "u \<noteq> CHR ''t''"
  shows "gsub dtsRegex rep p (x @ CHR ''.'' # u # t) = gsub dtsRegex rep p x @ t'"
  by (rule gsub_append_tail) (simp_all add: rmatch_dts_tail assms)

lemma gsub_js_tails:
  "gsub jsRegex rep p ''.js'' = rep"
  "gsub jsRegex rep p ''.jsx'' = rep @ ''x''"
  "gsub jsRegex rep p ''.mjs'' = ''.'' @ rep"
  "gsub jsRegex rep p ''.cjs'' = ''.'' @ rep"
  "gsub jsRegex rep p ''.js.map'' = rep @ ''.map''"
  "gsub jsRegex rep p ''.jsx.map'' = rep @ ''x.map''"
  "gsub jsRegex rep p ''.mjs.map'' = ''.'' @ rep @ ''.map''"
  "gsub jsRegex rep p ''.cjs.map'' = ''.'' @ rep @ ''.map''"
  "gsub jsRegex rep p ''.d.ts'' = ''.d.ts''"
  "gsub jsRegex rep p ''.d.ts.map'' = ''.d.ts.map''"
  by (simp_all add: gsub.simps jsRegex_def isLineTerminator_def)

lemma gsub_mapJs_tails:
  "gsub mapJsRegex rep p ''.cjs'' = ''.cjs''"
  "gsub mapJsRegex rep p ''.mjs'' = ''.mjs''"
  "gsub mapJsRegex rep p ''.cjsx'' = ''.cjsx''"
  "gsub mapJsRegex rep p ''.mjsx'' = ''.mjsx''"
  "gsub mapJsRegex rep p ''..cjs'' = ''..cjs''"
  "gsub mapJsRegex rep p ''..mjs'' = ''..mjs''"
  "gsub mapJsRegex rep p ''.cjs.map'' = ''.cjs.map''"
  "gsub mapJsRegex rep p ''.mjs.map'' = ''.mjs.map''"
  "gsub mapJsRegex rep p ''.cjsx.map'' = ''.cjsx.map''"
  "gsub mapJsRegex rep p ''.mjsx.map'' = ''.mjsx.map''"
  "gsub mapJsRegex rep p ''..cjs.map'' = ''..cjs.map''"
  "gsub mapJsRegex rep p ''..mjs.map'' = ''..mjs.map''"
  "gsub mapJsRegex rep p ''.d.ts'' = ''.d.ts''"
  "gsub mapJsRegex rep p ''.d.ts.map'' = ''.d.ts.map''"
  by (simp_all add: gsub.simps mapJsRegex_def isLineTerminator_def)

lemma gsub_dts_tails:
  "gsub dtsRegex rep p ''.cjs'' = ''.cjs''"
  "gsub dtsRegex rep p ''.mjs'' = ''.mjs''"
  "gsub dtsRegex rep p ''.cjsx'' = ''.cjsx''"
  "gsub dtsRegex rep p ''.mjsx'' = ''.mjsx''"
  "gsub dtsRegex rep p ''..cjs'' = ''..cjs''"
  "gsub dtsRegex rep p ''..mjs'' = ''..mjs''"
  "gsub dtsRegex rep p ''.cjs.map'' = ''.cjs.map''"
  "gsub dtsRegex rep p ''.mjs.map'' = ''.mjs.map''"
  "gsub dtsRegex rep p ''.cjsx.map'' = ''.cjsx.map''"
  "gsub dtsRegex rep p ''.mjsx.map'' = ''.mjsx.map''"
  "gsub dtsRegex rep p ''..cjs.map'' = ''..cjs.map''"
  "gsub dtsRegex rep p ''..mjs.map'' = ''..mjs.map''"
  "gsub dtsRegex rep p ''.d.ts'' = rep"
  "gsub dtsRegex rep p ''.d.ts.map'' = rep @ ''.map''"
  by (simp_all add: gsub.simps dtsRegex_def isLineTerminator_def)

lemma outName_tail:
  assumes "\<And>p. gsub jsRegex r1 p (CHR ''.'' # t) = CHR ''.'' # u # t1"
    and "\<And>p. gsub mapJsRegex r2 p (CHR ''.'' # u # t1) = CHR ''.'' # u # t1"
    and "\<And>p. gsub dtsRegex r3 p (CHR ''.'' # u # t1) = t3"
    and "u \<noteq> CHR ''j''" and "u \<noteq> CHR ''t''"
  shows "\<exists>z. replaceAll (replaceAll (replaceAll (x @ CHR ''.'' # t) jsRegex r1) mapJsRegex r2)
            dtsRegex r3 = z @ t3"
  by (simp add: replaceAll_def js_tail [OF assms(1)] mapJs_tail [OF assms(2) assms(4)]
      dts_tail [OF assms(3) assms(5)])

lemma cjsOutName_js: "\<exists>z. cjsOutName (x @ ''.js'') = z @ ''.cjs''"
  unfolding cjsOutName_def
  using outName_tail [where t = "''js''" and ?r1.0 = "''.cjs''" and u = "CHR ''c''"
      and ?t1.0 = "''js''" and x = x
      and ?r2.0 = "''.map.cjs''" and ?r3.0 = "''.d.cts''" and ?t3.0 = "''.cjs''"]
  by (simp add: gsub_js_tails gsub_mapJs_tails gsub_dts_tails)

lemma cjsOutName_jsx: "\<exists>z. cjsOutName (x @ ''.jsx'') = z @ ''.cjsx''"
  unfolding cjsOutName_def
  using outName_tail [where t = "''jsx''" and ?r1.0 = "''.cjs''" and u = "CHR ''c''"
      and ?t1.0 = "''jsx''" and x = x
      and ?r2.0 = "''.map.cjs''" and ?r3.0 = "''.d.cts''" and ?t3.0 = "''.cjsx''"]
  by (simp add: gsub_js_tails gsub_mapJs_tails gsub_dts_tails)

lemma cjsOutName_mjs: "\<exists>z. cjsOutName (x @ ''.mjs'') = z @ ''..cjs''"
  unfolding cjsOutName_def
  using outName_tail [where t = "''mjs''" and ?r1.0 = "''.cjs''" and u = "CHR ''.''"
      and ?t1.0 = "''cjs''" and x = x
      and ?r2.0 = "''.map.cjs''" and ?r3.0 = "''.d.cts''" and ?t3.0 = "''..cjs''"]
  by (simp add: gsub_js_tails gsub_mapJs_tails gsub_dts_tails)

lemma cjsOutName_cjs: "\<exists>z. cjsOutName (x @ ''.cjs'') = z @ ''..cjs''"
  unfolding cjsOutName_def
  using outName_tail [where t = "''cjs''" and ?r1.0 = "''.cjs''" and u = "CHR ''.''"
      and ?t1.0 = "''cjs''" and x = x
      and ?r2.0 = "''.map.cjs''" and ?r3.0 = "''.d.cts''" and ?t3.0 = "''..cjs''"]
  by (simp add: gsub_js_tails gsub_mapJs_tails gsub_dts_tails)

lemma cjsOutName_js_map: "\<exists>z. cjsOutName (x @ ''.js.map'') = z @ ''.cjs.map''"
  unfolding cjsOutName_def
  using outName_tail [where t = "''js.map''" and ?r1.0 = "''.cjs''" and u = "CHR ''c''"
      and ?t1.0 = "''js.map''" and x = x
      and ?r2.0 = "''.map.cjs''" and ?r3.0 = "''.d.cts''" and ?t3.0 = "''.cjs.map''"]
  by (simp add: gsub_js_tails gsub_mapJs_tails gsub_dts_tails)

lemma cjsOutName_jsx_map: "\<exists>z. cjsOutName (x @ ''.jsx.map'') = z @ ''.cjsx.map''"
  unfolding cjsOutName_def
  using outName_tail [where t = "''jsx.map''" and ?r1.0 = "''.cjs''" and u = "CHR ''c''"
      and ?t1.0 = "''jsx.map''" and x = x
      and ?r2.0 = "''.map.cjs''" and ?r3.0 = "''.d.cts''" and ?t3.0 = "''.cjsx.map''"]
  by (simp add: gsub_js_tails gsub_mapJs_tails gsub_dts_tails)

lemma cjsOutName_mjs_map: "\<exists>z. cjsOutName (x @ ''.mjs.map'') = z @ ''..cjs.map''"
  unfolding cjsOutName_def
  using outName_tail [where t = "''mjs.map''" and ?r1.0 = "''.cjs''" and u = "CHR ''.''"
      and ?t1.0 = "''cjs.map''" and x = x
      and ?r2.0 = "''.map.cjs''" and ?r3.0 = "''.d.cts''" and ?t3.0 = "''..cjs.map''"]
  by (simp add: gsub_js_tails gsub_mapJs_tails gsub_dts_tails)

lemma cjsOutName_cjs_map: "\<exists>z. cjsOutName (x @ ''.cjs.map'') = z @ ''..cjs.map''"
  unfolding cjsOutName_def
  using outName_tail [where t = "''cjs.map''" and ?r1.0 = "''.cjs''" and u = "CHR ''.''"
      and ?t1.0 = "''cjs.map''" and x = x
      and ?r2.0 = "''.map.cjs''" and ?r3.0 = "''.d.cts''" and ?t3.0 = "''..cjs.map''"]
  by (simp add: gsub_js_tails gsub_mapJs_tails gsub_dts_tails)

lemma cjsOutName_d_ts: "\<exists>z. cjsOutName (x @ ''.d.ts'') = z @ ''.d.cts''"
  unfolding cjsOutName_def
  using outName_tail [where t = "''d.ts''" and ?r1.0 = "''.cjs''" and u = "CHR ''d''"
      and ?t1.0 = "''.ts''" and x = x
      and ?r2.0 = "''.map.cjs''" and ?r3.0 = "''.d.cts''" and ?t3.0 = "''.d.cts''"]
  by (simp add: gsub_js_tails gsub_mapJs_tails gsub_dts_tails)

lemma cjsOutName_d_ts_map: "\<exists>z. cjsOutName (x @ ''.d.ts.map'') = z @ ''.d.cts.map''"
  unfolding cjsOutName_def
  using outName_tail [where t = "''d.ts.map''" and ?r1.0 = "''.cjs''" and u = "CHR ''d''"
      and ?t1.0 = "''.ts.map''" and x = x
      and ?r2.0 = "''.map.cjs''" and ?r3.0 = "''.d.cts''" and ?t3.0 = "''.d.cts.map''"]
  by (simp add: gsub_js_tails gsub_mapJs_tails gsub_dts_tails)

lemma esmOutName_js: "\<exists>z. esmOutName (x @ ''.js'') = z @ ''.mjs''"
  unfolding esmOutName_def
  using outName_tail [where t = "''js''" and ?r1.0 = "''.mjs''" and u = "CHR ''m''"
      and ?t1.0 = "''js''" and x = x
      and ?r2.0 = "''.map.mjs''" and ?r3.0 = "''.d.mts''" and ?t3.0 = "''.mjs''"]
  by (simp add: gsub_js_tails gsub_mapJs_tails gsub_dts_tails)

lemma esmOutName_jsx: "\<exists>z. esmOutName (x @ ''.jsx'') = z @ ''.mjsx''"
  unfolding esmOutName_def
  using outName_tail [where t = "''jsx''" and ?r1.0 = "''.mjs''" and u = "CHR ''m''"
      and ?t1.0 = "''jsx''" and x = x
      and ?r2.0 = "''.map.mjs''" and ?r3.0 = "''.d.mts''" and ?t3.0 = "''.mjsx''"]
  by (simp add: gsub_js_tails gsub_mapJs_tails gsub_dts_tails)

lemma esmOutName_mjs: "\<exists>z. esmOutName (x @ ''.mjs'') = z @ ''..mjs''"
  unfolding esmOutName_def
  using outName_tail [where t = "''mjs''" and ?r1.0 = "''.mjs''" and u = "CHR ''.''"
      and ?t1.0 = "''mjs''" and x = x
      and ?r2.0 = "''.map.mjs''" and ?r3.0 = "''.d.mts''" and ?t3.0 = "''..mjs''"]
  by (simp add: gsub_js_tails gsub_mapJs_tails gsub_dts_tails)

lemma esmOutName_cjs: "\<exists>z. esmOutName (x @ ''.cjs'') = z @ ''..mjs''"
  unfolding esmOutName_def
  using outName_tail [where t = "''cjs''" and ?r1.0 = "''.mjs''" and u = "CHR ''.''"
      and ?t1.0 = "''mjs''" and x = x
      and ?r2.0 = "''.map.mjs''" and ?r3.0 = "''.d.mts''" and ?t3.0 = "''..mjs''"]
  by (simp add: gsub_js_tails gsub_mapJs_tails gsub_dts_tails)

lemma esmOutName_js_map: "\<exists>z. esmOutName (x @ ''.js.map'') = z @ ''.mjs.map''"
  unfolding esmOutName_def
  using outName_tail [where t = "''js.map''" and ?r1.0 = "''.mjs''" and u = "CHR ''m''"
      and ?t1.0 = "''js.map''" and x = x
      and ?r2.0 = "''.map.mjs''" and ?r3.0 = "''.d.mts''" and ?t3.0 = "''.mjs.map''"]
  by (simp add: gsub_js_tails gsub_mapJs_tails gsub_dts_tails)

lemma esmOutName_jsx_map: "\<exists>z. esmOutName (x @ ''.jsx.map'') = z @ ''.mjsx.map''"
  unfolding esmOutName_def
  using outName_tail [where t = "''jsx.map''" and ?r1.0 = "''.mjs''" and u = "CHR ''m''"
      and ?t1.0 = "''jsx.map''" and x = x
      and ?r2.0 = "''.map.mjs''" and ?r3.0 = "''.d.mts''" and ?t3.0 = "''.mjsx.map''"]
  by (simp add: gsub_js_tails gsub_mapJs_tails gsub_dts_tails)

lemma esmOutName_mjs_map: "\<exists>z. esmOutName (x @ ''.mjs.map'') = z @ ''..mjs.map''"
  unfolding esmOutName_def
  using outName_tail [where t = "''mjs.map''" and ?r1.0 = "''.mjs''" and u = "CHR ''.''"
      and ?t1.0 = "''mjs.map''" and x = x
      and ?r2.0 = "''.map.mjs''" and ?r3.0 = "''.d.mts''" and ?t3.0 = "''..mjs.map''"]
  by (simp add: gsub_js_tails gsub_mapJs_tails gsub_dts_tails)

lemma esmOutName_cjs_map: "\<exists>z. esmOutName (x @ ''.cjs.map'') = z @ ''..mjs.map''"
  unfolding esmOutName_def
  using outName_tail [where t = "''cjs.map''" and ?r1.0 = "''.mjs''" and u = "CHR ''.''"
      and ?t1.0 = "''mjs.map''" and x = x
      and ?r2.0 = "''.map.mjs''" and ?r3.0 = "''.d.mts''" and ?t3.0 = "''..mjs.map''"]
  by (simp add: gsub_js_tails gsub_mapJs_tails gsub_dts_tails)

lemma esmOutName_d_ts: "\<exists>z. esmOutName (x @ ''.d.ts'') = z @ ''.d.mts''"
  unfolding esmOutName_def
  using outName_tail [where t = "''d.ts''" and ?r1.0 = "''.mjs''" and u = "CHR ''d''"
      and ?t1.0 = "''.ts''" and x = x
      and ?r2.0 = "''.map.mjs''" and ?r3.0 = "''.d.mts''" and ?t3.0 = "''.d.mts''"]
  by (simp add: gsub_js_tails gsub_mapJs_tails gsub_dts_tails)

lemma esmOutName_d_ts_map: "\<exists>z. esmOutName (x @ ''.d.ts.map'') = z @ ''.d.mts.map''"
  unfolding esmOutName_def
  using outName_tail [where t = "''d.ts.map''" and ?r1.0 = "''.mjs''" and u = "CHR ''d''"
      and ?t1.0 = "''.ts.map''" and x = x
      and ?r2.0 = "''.map.mjs''" and ?r3.0 = "''.d.mts''" and ?t3.0 = "''.d.mts.map''"]
  by (simp add: gsub_js_tails gsub_mapJs_tails gsub_dts_tails)

lemma cjsOutName_suffix:
  assumes "suffixRewritten n"
  shows "\<exists>z. cjsOutName n = z @ ''.cjs'' \<or> cjsOutName n = z @ ''.cjsx''
     \<or> cjsOutName n = z @ ''.cjs.map'' \<or> cjsOutName n = z @ ''.cjsx.map''
     \<or> cjsOutName n = z @ ''.d.cts'' \<or> cjsOutName n = z @ ''.d.cts.map''"
proof -
  consider x where "n = x @ ''.js''" | x where "n = x @ ''.jsx''" | x where "n = x @ ''.mjs''"
    | x where "n = x @ ''.cjs''" | x where "n = x @ ''.js.map''" | x where "n = x @ ''.jsx.map''"
    | x where "n = x @ ''.mjs.map''" | x where "n = x @ ''.cjs.map''" | x where "n = x @ ''.d.ts''"
    | x where "n = x @ ''.d.ts.map''"
    using assms unfolding suffixRewritten_def by (meson endsWithE)
  then show ?thesis
  proof cases
    case 1 then show ?thesis using cjsOutName_js [of x] by blast
  next
    case 2 then show ?thesis using cjsOutName_jsx [of x] by blast
  next
    case 3
    obtain z where "cjsOutName (x @ ''.mjs'') = z @ ''..cjs''" using cjsOutName_mjs by blast
    then have "cjsOutName n = (z @ ''.'') @ ''.cjs''" using 3 by simp
    then show ?thesis by blast
  next
    case 4
    obtain z where "cjsOutName (x @ ''.cjs'') = z @ ''..cjs''" using cjsOutName_cjs by blast
    then have "cjsOutName n = (z @ ''.'') @ ''.cjs''" using 4 by simp
    then show ?thesis by blast
  next
    case 5 then show ?thesis using cjsOutName_js_map [of x] by blast
  next
    case 6 then show ?thesis using cjsOutName_jsx_map [of x] by blast
  next
    case 7
    obtain z where "cjsOutName (x @ ''.mjs.map'') = z @ ''..cjs.map''" using cjsOutName_mjs_map by blast
    then have "cjsOutName n = (z @ ''.'') @ ''.cjs.map''" using 7 by simp
    then show ?thesis by blast
  next
    case 8
    obtain z where "cjsOutName (x @ ''.cjs.map'') = z @ ''..cjs.map''" using cjsOutName_cjs_map by blast
    then have "cjsOutName n = (z @ ''.'') @ ''.cjs.map''" using 8 by simp
    then show ?thesis by blast
  next
    case 9 then show ?thesis using cjsOutName_d_ts [of x] by blast
  next
    case 10 then show ?thesis using cjsOutName_d_ts_map [of x] by blast
  qed
qed

lemma esmOutName_suffix:
  assumes "suffixRewritten n"
  shows "\<exists>z. esmOutName n = z @ ''.mjs'' \<or> esmOutName n = z @ ''.mjsx''
     \<or> esmOutName n = z @ ''.mjs.map'' \<or> esmOutName n = z @ ''.mjsx.map''
     \<or> esmOutName n = z @ ''.d.mts'' \<or> esmOutName n = z @ ''.d.mts.map''"
proof -
  consider x where "n = x @ ''.js''" | x where "n = x @ ''.jsx''" | x where "n = x @ ''.mjs''"
    | x where "n = x @ ''.cjs''" | x where "n = x @ ''.js.map''" | x where "n = x @ ''.jsx.map''"
    | x where "n = x @ ''.mjs.map''" | x where "n = x @ ''.cjs.map''" | x where "n = x @ ''.d.ts''"
    | x where "n = x @ ''.d.ts.map''"
    using assms unfolding suffixRewritten_def by (meson endsWithE)
  then show ?thesis
  proof cases
    case 1 then show ?thesis using esmOutName_js [of x] by blast
  next
    case 2 then show ?thesis using esmOutName_jsx [of x] by blast
  next
    case 3
    obtain z where "esmOutName (x @ ''.mjs'') = z @ ''..mjs''" using esmOutName_mjs by blast
    then have "esmOutName n = (z @ ''.'') @ ''.mjs''" using 3 by simp
    then show ?thesis by blast
  next
    case 4
    obtain z where "esmOutName (x @ ''.cjs'') = z @ ''..mjs''" using esmOutName_cjs by blast
    then have "esmOutName n = (z @ ''.'') @ ''.mjs''" using 4 by simp
    then show ?thesis by blast
  next
    case 5 then show ?thesis using esmOutName_js_map [of x] by blast
  next
    case 6 then show ?thesis using esmOutName_jsx_map [of x] by blast
  next
    case 7
    obtain z where "esmOutName (x @ ''.mjs.map'') = z @ ''..mjs.map''" using esmOutName_mjs_map by blast
    then have "esmOutName n = (z @ ''.'') @ ''.mjs.map''" using 7 by simp
    then show ?thesis by blast
  next
    case 8
    obtain z where "esmOutName (x @ ''.cjs.map'') = z @ ''..mjs.map''" using esmOutName_cjs_map by blast
    then have "esmOutName n = (z @ ''.'') @ ''.mjs.map''" using 8 by simp
    then show ?thesis by blast
  next
    case 9 then show ?thesis using esmOutName_d_ts [of x] by blast
  next
    case 10 then show ?thesis using esmOutName_d_ts_map [of x] by blast
  qed
qed

text \<open>
  C6, as the code has it: for names that end in a suffix the patterns reach (\<open>.js\<close>,
  \<open>.jsx\<close>, \<open>.mjs\<close>, \<open>.cjs\<close>, one of these followed by \<open>.map\<close>, \<open>.d.ts\<close>, \<open>.d.ts.map\<close>),
  the name the CommonJS compiler writes never equals a name the ESM compiler writes, for
  the same emitted file or for two different ones: the first ends in \<open>.cjs\<close>, \<open>.cjsx\<close>,
  \<open>.cjs.map\<close>, \<open>.cjsx.map\<close>, \<open>.d.cts\<close> or \<open>.d.cts.map\<close>, the second in the same with \<open>m\<close>
  for \<open>c\<close>.  So the two sets of written files are disjoint when every emitted name is
  of this kind.
\<close>

theorem dialect_output_names_disjoint:
  assumes "suffixRewritten n1" and "suffixRewritten n2"
  shows "cjsOutName n1 \<noteq> esmOutName n2"
proof
  assume eq: "cjsOutName n1 = esmOutName n2"
  then have t: "take 10 (rev (cjsOutName n1)) = take 10 (rev (esmOutName n2))"
    by simp
  obtain z where z: "cjsOutName n1 = z @ ''.cjs'' \<or> cjsOutName n1 = z @ ''.cjsx''
     \<or> cjsOutName n1 = z @ ''.cjs.map'' \<or> cjsOutName n1 = z @ ''.cjsx.map''
     \<or> cjsOutName n1 = z @ ''.d.cts'' \<or> cjsOutName n1 = z @ ''.d.cts.map''"
    using cjsOutName_suffix [OF assms(1)] by blast
  obtain w where w: "esmOutName n2 = w @ ''.mjs'' \<or> esmOutName n2 = w @ ''.mjsx''
     \<or> esmOutName n2 = w @ ''.mjs.map'' \<or> esmOutName n2 = w @ ''.mjsx.map''
     \<or> esmOutName n2 = w @ ''.d.mts'' \<or> esmOutName n2 = w @ ''.d.mts.map''"
    using esmOutName_suffix [OF assms(2)] by blast
  from z w t show False
    by auto
qed

text \<open>
  The hypotheses hold of \<open>index.js\<close>, \<open>index.js.map\<close>, \<open>index.d.ts\<close>, \<open>index.jsx\<close>,
  \<open>index.d.ts.map\<close> and \<open>index.mjs\<close>.
\<close>

theorem dialect_output_names_disjoint_witness:
  "suffixRewritten ''index.js'' \<and> suffixRewritten ''index.d.ts''
   \<and> suffixRewritten ''index.js.map'' \<and> suffixRewritten ''index.jsx''
   \<and> suffixRewritten ''index.d.ts.map'' \<and> suffixRewritten ''index.mjs''
   \<and> cjsOutName ''index.js'' \<noteq> esmOutName ''index.js''
   \<and> cjsOutName ''index.js.map'' \<noteq> esmOutName ''index.js.map''
   \<and> cjsOutName ''index.d.ts'' \<noteq> esmOutName ''index.d.ts''
   \<and> cjsOutName ''index.js'' \<noteq> esmOutName ''index.d.ts''
   \<and> cjsOutName ''index.jsx'' \<noteq> esmOutName ''index.jsx''
   \<and> cjsOutName ''index.d.ts.map'' \<noteq> esmOutName ''index.d.ts.map''
   \<and> cjsOutName ''index.mjs'' \<noteq> esmOutName ''index.mjs''"
proof -
  have a: "suffixRewritten ''index.js''" by code_simp
  have b: "suffixRewritten ''index.d.ts''" by code_simp
  have c: "suffixRewritten ''index.js.map''" by code_simp
  have d: "suffixRewritten ''index.jsx''" by code_simp
  have e: "suffixRewritten ''index.d.ts.map''" by code_simp
  have f: "suffixRewritten ''index.mjs''" by code_simp
  show ?thesis
    using a b c d e f
      dialect_output_names_disjoint [OF a a] dialect_output_names_disjoint [OF c c]
      dialect_output_names_disjoint [OF b b] dialect_output_names_disjoint [OF a b]
      dialect_output_names_disjoint [OF d d] dialect_output_names_disjoint [OF e e]
      dialect_output_names_disjoint [OF f f]
    by (intro conjI)
qed

text \<open>
  C6 as stated fails on the declaration file of a \<open>.mts\<close> or \<open>.cts\<close> input: no
  pattern matches in \<open>index.d.mts\<close> or \<open>index.d.cts\<close>, and both compilers write the file
  under the name the emit gave it.
\<close>

theorem declaration_name_of_mts_input_shared:
  "cjsOutName ''index.d.mts'' = esmOutName ''index.d.mts''
   \<and> cjsOutName ''index.d.mts'' = ''index.d.mts''
   \<and> cjsOutName ''index.d.cts'' = esmOutName ''index.d.cts''
   \<and> cjsOutName ''index.d.cts'' = ''index.d.cts''"
  by code_simp

text \<open>
  More generally, a name in which none of the three patterns matches is written
  unchanged by both compilers.
\<close>

lemma gsub_no_match: "rexec r p s = None \<Longrightarrow> gsub r rep p s = s"
proof (induction s arbitrary: p)
  case Nil
  then show ?case by (subst gsub.simps) (simp split: list.splits)
next
  case (Cons c cs)
  from Cons.prems have m: "rmatch r (p, c # cs, []) = []" and "rexec r (Some c) cs = None"
    by (simp_all split: list.splits)
  then have "gsub r rep (Some c) cs = cs" using Cons.IH by blast
  with m show ?case by (subst gsub.simps) simp
qed

lemma unmatched_name_kept:
  assumes "\<not> regexTest jsRegex n" and "\<not> regexTest mapJsRegex n" and "\<not> regexTest dtsRegex n"
  shows "cjsOutName n = n \<and> esmOutName n = n"
proof -
  have "rexec jsRegex None n = None" "rexec mapJsRegex None n = None"
    "rexec dtsRegex None n = None"
    using assms unfolding regexTest_def by blast+
  then have "gsub jsRegex r1 None n = n" "gsub mapJsRegex r2 None n = n"
    "gsub dtsRegex r3 None n = n" for r1 r2 r3
    by (simp_all add: gsub_no_match)
  then show ?thesis
    by (simp add: cjsOutName_def esmOutName_def replaceAll_def)
qed

text \<open>
  C5, as the code has it: in the CommonJS compiler the hooks receive the text after the
  substitution (\<open>exports.default = bundle;\<close> to \<open>module.exports = bundle;\<close> in a \<open>.js\<close>
  file, \<open>export default bundle;\<close> to \<open>export = bundle;\<close> in a \<open>.ts\<close> file).  The ESM
  compiler substitutes nothing: its hooks receive the emitted text, and without hooks
  the emitted text is written as it is.
\<close>

theorem substitutions_before_hooks:
  "snd (commonjsArtifact extname hooks (outName, code)) =
     runHooks hooks outName
       (if extname outName = ''.js''
        then replaceFirst ''exports.default = bundle;'' ''module.exports = bundle;'' code
        else if extname outName = ''.ts''
        then replaceFirst ''export default bundle;'' ''export = bundle;'' code
        else code)
   \<and> snd (esmArtifact hooks (outName, code)) = runHooks hooks outName code
   \<and> snd (esmArtifact None (outName, code)) = code"
proof -
  have s: "cjsSubstitute (extname outName) code =
       (if extname outName = ''.js''
        then replaceFirst ''exports.default = bundle;'' ''module.exports = bundle;'' code
        else if extname outName = ''.ts''
        then replaceFirst ''export default bundle;'' ''export = bundle;'' code
        else code)"
    by (simp add: cjsSubstitute_def Let_def)
  have a: "snd (commonjsArtifact extname hooks (outName, code)) =
     runHooks hooks outName
       (if extname outName = ''.js''
        then replaceFirst ''exports.default = bundle;'' ''module.exports = bundle;'' code
        else if extname outName = ''.ts''
        then replaceFirst ''export default bundle;'' ''export = bundle;'' code
        else code)"
    unfolding s [symmetric] by (simp add: commonjsArtifact_def)
  have b: "snd (esmArtifact hooks (outName, code)) = runHooks hooks outName code"
    by (simp add: esmArtifact_def)
  have c: "snd (esmArtifact None (outName, code)) = code"
    by (simp add: esmArtifact_def runHooks_def)
  from a b c show ?thesis
    by (intro conjI)
qed

text \<open>
  C5 as stated fails: the ESM compiler leaves a declaration file's \<open>export = bundle;\<close>
  (and \<open>export default bundle;\<close>) as it is, where the CommonJS compiler rewrites.
\<close>

theorem esmCompiler_rewrites_nothing:
  "esmArtifact None (''index.d.ts'', ''export = bundle;'') = (''index.d.mts'', ''export = bundle;'')
   \<and> esmArtifact None (''index.d.ts'', ''export default bundle;'')
       = (''index.d.mts'', ''export default bundle;'')
   \<and> commonjsArtifact (\<lambda>n. ''.ts'') None (''index.d.ts'', ''export default bundle;'')
       = (''index.d.cts'', ''export = bundle;'')"
  by code_simp

lemma cjsSubstitute_js:
  "cjsSubstitute ''.js'' code =
     replaceFirst ''exports.default = bundle;'' ''module.exports = bundle;'' code"
  by (simp add: cjsSubstitute_def)

lemma cjsSubstitute_ts:
  "cjsSubstitute ''.ts'' code =
     replaceFirst ''export default bundle;'' ''export = bundle;'' code"
  by (simp add: cjsSubstitute_def)

lemma cjsSubstitute_other:
  "ext \<noteq> ''.js'' \<Longrightarrow> ext \<noteq> ''.ts'' \<Longrightarrow> cjsSubstitute ext code = code"
  by (simp add: cjsSubstitute_def)

text \<open>
  C10: the CommonJS substitution, before any hook.  In a \<open>.js\<close> file a text without the
  literal \<open>exports.default = bundle;\<close> (any other exported name) is unchanged, and only
  the first occurrence of the literal is replaced; the same holds in a \<open>.ts\<close> file for
  \<open>export default bundle;\<close>; a file of any other extension is unchanged.  Without
  hooks, the substituted text is the text the compiler writes.
\<close>

theorem cjsSubstitute_first_literal_only:
  "((\<forall>u v. code \<noteq> u @ ''exports.default = bundle;'' @ v)
      \<longrightarrow> cjsSubstitute ''.js'' code = code)
   \<and> ((\<forall>u v. pre @ ''exports.default = bundle;'' @ post = u @ ''exports.default = bundle;'' @ v
        \<longrightarrow> length pre \<le> length u)
      \<longrightarrow> cjsSubstitute ''.js'' (pre @ ''exports.default = bundle;'' @ post)
          = pre @ ''module.exports = bundle;'' @ post)
   \<and> ((\<forall>u v. code \<noteq> u @ ''export default bundle;'' @ v)
      \<longrightarrow> cjsSubstitute ''.ts'' code = code)
   \<and> ((\<forall>u v. pre @ ''export default bundle;'' @ post = u @ ''export default bundle;'' @ v
        \<longrightarrow> length pre \<le> length u)
      \<longrightarrow> cjsSubstitute ''.ts'' (pre @ ''export default bundle;'' @ post)
          = pre @ ''export = bundle;'' @ post)
   \<and> (ext \<noteq> ''.js'' \<and> ext \<noteq> ''.ts'' \<longrightarrow> cjsSubstitute ext code = code)
   \<and> snd (commonjsArtifact extname None (outName, code)) = cjsSubstitute (extname outName) code"
proof (intro conjI impI)
  show "cjsSubstitute ''.js'' code = code"
    if "\<forall>u v. code \<noteq> u @ ''exports.default = bundle;'' @ v"
    unfolding cjsSubstitute_js using that by (rule replaceFirst_absent)
  show "cjsSubstitute ''.js'' (pre @ ''exports.default = bundle;'' @ post)
      = pre @ ''module.exports = bundle;'' @ post"
    if "\<forall>u v. pre @ ''exports.default = bundle;'' @ post = u @ ''exports.default = bundle;'' @ v
        \<longrightarrow> length pre \<le> length u"
    unfolding cjsSubstitute_js using that by (rule replaceFirst_first)
  show "cjsSubstitute ''.ts'' code = code"
    if "\<forall>u v. code \<noteq> u @ ''export default bundle;'' @ v"
    unfolding cjsSubstitute_ts using that by (rule replaceFirst_absent)
  show "cjsSubstitute ''.ts'' (pre @ ''export default bundle;'' @ post)
      = pre @ ''export = bundle;'' @ post"
    if "\<forall>u v. pre @ ''export default bundle;'' @ post = u @ ''export default bundle;'' @ v
        \<longrightarrow> length pre \<le> length u"
    unfolding cjsSubstitute_ts using that by (rule replaceFirst_first)
  show "cjsSubstitute ext code = code" if "ext \<noteq> ''.js'' \<and> ext \<noteq> ''.ts''"
    using that by (simp add: cjsSubstitute_other)
  show "snd (commonjsArtifact extname None (outName, code)) = cjsSubstitute (extname outName) code"
    by (simp add: commonjsArtifact_def runHooks_def)
qed

text \<open>
  The hypotheses hold for the exported name \<open>main\<close>, and for a text with the literal
  twice, whose second occurrence stays.
\<close>

theorem cjsSubstitute_first_literal_only_witness:
  "(\<forall>u v. ''exports.default = main;'' \<noteq> u @ ''exports.default = bundle;'' @ v)
   \<and> cjsSubstitute ''.js'' ''exports.default = main;'' = ''exports.default = main;''
   \<and> cjsSubstitute ''.js'' ([] @ ''exports.default = bundle;'' @ '' exports.default = bundle;'')
       = [] @ ''module.exports = bundle;'' @ '' exports.default = bundle;''
   \<and> (\<forall>u v. ''export default main;'' \<noteq> u @ ''export default bundle;'' @ v)
   \<and> cjsSubstitute ''.ts'' ''export default main;'' = ''export default main;''
   \<and> cjsSubstitute ''.ts'' ([] @ ''export default bundle;'' @ '' export default bundle;'')
       = [] @ ''export = bundle;'' @ '' export default bundle;''
   \<and> cjsSubstitute ''.map'' ''exports.default = bundle;'' = ''exports.default = bundle;''"
proof -
  have a: "\<forall>u v. ''exports.default = main;'' \<noteq> u @ ''exports.default = bundle;'' @ v"
  proof (intro allI notI)
    fix u v :: string
    assume "''exports.default = main;'' = u @ ''exports.default = bundle;'' @ v"
    then have "length ''exports.default = main;''
        = length (u @ ''exports.default = bundle;'' @ v)"
      by (rule arg_cong)
    then show False by simp
  qed
  have b: "\<forall>u v. ''export default main;'' \<noteq> u @ ''export default bundle;'' @ v"
  proof (intro allI notI)
    fix u v :: string
    assume "''export default main;'' = u @ ''export default bundle;'' @ v"
    then have "length ''export default main;'' = length (u @ ''export default bundle;'' @ v)"
      by (rule arg_cong)
    then show False by simp
  qed
  have c: "\<forall>u v. ([]::string) @ pat @ post = u @ pat @ v \<longrightarrow> length ([]::string) \<le> length u"
    for pat post :: string
    by simp
  note t1 = cjsSubstitute_first_literal_only [where code = "''exports.default = main;''"
        and pre = "[]" and post = "'' exports.default = bundle;''" and ext = "''.map''"]
  note t2 = cjsSubstitute_first_literal_only [where code = "''export default main;''"
        and pre = "[]" and post = "'' export default bundle;''" and ext = "''.map''"]
  have e1: "cjsSubstitute ''.js'' ''exports.default = main;'' = ''exports.default = main;''"
    by (rule t1 [THEN conjunct1, THEN mp, OF a])
  have e2: "cjsSubstitute ''.js'' ([] @ ''exports.default = bundle;'' @ '' exports.default = bundle;'')
       = [] @ ''module.exports = bundle;'' @ '' exports.default = bundle;''"
    by (rule t1 [THEN conjunct2, THEN conjunct1, THEN mp, OF c])
  have e3: "cjsSubstitute ''.ts'' ''export default main;'' = ''export default main;''"
    by (rule t2 [THEN conjunct2, THEN conjunct2, THEN conjunct1, THEN mp, OF b])
  have e4: "cjsSubstitute ''.ts'' ([] @ ''export default bundle;'' @ '' export default bundle;'')
       = [] @ ''export = bundle;'' @ '' export default bundle;''"
    by (rule t2 [THEN conjunct2, THEN conjunct2, THEN conjunct2, THEN conjunct1, THEN mp, OF c])
  have e5: "cjsSubstitute ''.map'' ''exports.default = bundle;'' = ''exports.default = bundle;''"
    by (simp add: cjsSubstitute_def)
  from a e1 e2 b e3 e4 e5 show ?thesis
    by (intro conjI)
qed

section \<open>Properties of the bundle assembler and the stripping passes\<close>

lemma rmatch_nonLocal_empty: "rmatch nonLocalRegex (p, [], caps) = []"
  by (simp add: nonLocalRegex_def)

lemma rmatch_nonLocal_nonquote:
  "c \<notin> set quoteChars \<Longrightarrow> rmatch nonLocalRegex (p, c # s, caps) = []"
  by (simp add: nonLocalRegex_def)

lemma rmatch_nonLocal_relative:
  assumes "startsWith path ''./'' \<or> startsWith path ''../''"
  shows "rmatch nonLocalRegex (p, q # path @ rest, caps) = []"
proof -
  have "(\<exists>r. path = CHR ''.'' # CHR ''/'' # r) \<or> (\<exists>r. path = CHR ''.'' # CHR ''.'' # CHR ''/'' # r)"
    using assms unfolding startsWith_def
    by (metis append_take_drop_id append_Cons append_Nil)
  then show ?thesis
    by (auto simp: nonLocalRegex_def)
qed

lemma rmatch_nonLocal_unclosed:
  assumes "set post \<inter> set quoteChars = {}"
  shows "rmatch nonLocalRegex (p, c # post, caps) = []"
proof -
  have "matchCls (OneOf quoteChars) (setCapture n st0 st) = []"
    if "st \<in> set (runs (NoneOf quoteChars) (p', post, caps'))" for st st0 n p' caps'
  proof -
    have "set (fst (snd st)) \<subseteq> set post"
      using that by (rule runs_rest_subset)
    with assms have "set (fst (snd (setCapture n st0 st))) \<inter> set quoteChars = {}"
      unfolding setCapture_rest by blast
    then show ?thesis by (rule matchCls_quote_none)
  qed
  then show ?thesis
    by (auto simp: nonLocalRegex_def)
qed

lemma rexec_nonLocal_skip:
  assumes "set a \<inter> set quoteChars = {}" and "\<And>p. rexec nonLocalRegex p b = None"
  shows "rexec nonLocalRegex p (a @ b) = None"
  using assms(1)
proof (induction a arbitrary: p)
  case Nil
  then show ?case by (simp add: assms(2))
next
  case (Cons c cs)
  then have "c \<notin> set quoteChars" and "set cs \<inter> set quoteChars = {}"
    by auto
  then show ?case
    using Cons.IH by (simp add: rmatch_nonLocal_nonquote)
qed

lemma rexec_nonLocal_Nil: "rexec nonLocalRegex p [] = None"
  by (simp add: rmatch_nonLocal_empty)

lemma relative_statement_filtered:
  assumes "set pre \<inter> set quoteChars = {}" and "set path \<inter> set quoteChars = {}"
    and "set post \<inter> set quoteChars = {}"
    and "startsWith path ''./'' \<or> startsWith path ''../''"
  shows "\<not> regexTest nonLocalRegex (pre @ q # path @ q' # post)"
proof -
  have 1: "rexec nonLocalRegex p post = None" for p
    using rexec_nonLocal_skip [OF assms(3), of "[]"] rexec_nonLocal_Nil by simp
  have 2: "rexec nonLocalRegex p (q' # post) = None" for p
    using 1 by (simp add: rmatch_nonLocal_unclosed [OF assms(3)])
  have 3: "rexec nonLocalRegex p (path @ q' # post) = None" for p
    using rexec_nonLocal_skip [OF assms(2)] 2 by blast
  have 4: "rexec nonLocalRegex p (q # path @ q' # post) = None" for p
    using 3 by (simp add: rmatch_nonLocal_relative [OF assms(4)])
  have "rexec nonLocalRegex None (pre @ q # path @ q' # post) = None"
    using rexec_nonLocal_skip [OF assms(1)] 4 by blast
  then show ?thesis
    by (simp add: regexTest_def)
qed

text \<open>
  C3 as stated fails: \<open>mergeImports\<close> has no test of the module path, and a statement
  with a relative specifier that is passed in comes out again.
\<close>

theorem mergeImports_keeps_relative_statement:
  \<open>mergeImports [''import { a } from "./a";''] = [''import { a } from "./a";'']\<close>
  by code_simp

text \<open>
  C3, as the code has it: the relative statements are dropped by the filter of \<open>bundle\<close>
  that runs before \<open>mergeImports\<close>.  A removed statement whose only quoted text is a
  module specifier beginning with \<open>./\<close> or \<open>../\<close> does not pass the filter: the hoisted
  imports are those of the list without the statement.
\<close>

theorem relative_statements_filtered_before_merge:
  assumes "set pre \<inter> set quoteChars = {}" and "set path \<inter> set quoteChars = {}"
    and "set post \<inter> set quoteChars = {}"
    and "q \<in> set quoteChars" and "q' \<in> set quoteChars"
    and "startsWith path ''./'' \<or> startsWith path ''../''"
  shows "hoistedImports (xs @ (pre @ q # path @ q' # post) # ys) = hoistedImports (xs @ ys)"
  using relative_statement_filtered [OF assms(1,2,3,6)]
  by (simp add: hoistedImports_def)

text \<open>The hypotheses hold of \<^verbatim>\<open>import { helper } from "./a";\<close>.\<close>

theorem relative_statements_filtered_before_merge_witness:
  \<open>''import { helper } from '' @ CHR 0x22 # ''./a'' @ CHR 0x22 # '';'' = ''import { helper } from "./a";''
   \<and> set ''import { helper } from '' \<inter> set quoteChars = {}
   \<and> set ''./a'' \<inter> set quoteChars = {} \<and> set '';'' \<inter> set quoteChars = {}
   \<and> CHR 0x22 \<in> set quoteChars \<and> startsWith ''./a'' ''./''
   \<and> hoistedImports ([''import { readFile } from "fs";'']
         @ (''import { helper } from '' @ CHR 0x22 # ''./a'' @ CHR 0x22 # '';'') # [])
       = hoistedImports ([''import { readFile } from "fs";''] @ [])
   \<and> hoistedImports ([''import { readFile } from "fs";''] @ []) = [''import { readFile } from "fs";'']\<close>
proof -
  have a: "set ''import { helper } from '' \<inter> set quoteChars = {}"
    by (simp add: quoteChars_def)
  have b: "set ''./a'' \<inter> set quoteChars = {}"
    by (simp add: quoteChars_def)
  have c: "set '';'' \<inter> set quoteChars = {}"
    by (simp add: quoteChars_def)
  have d: "CHR 0x22 \<in> set quoteChars"
    by (simp add: quoteChars_def)
  have e: "startsWith ''./a'' ''./''"
    by (simp add: startsWith_def)
  have f: \<open>hoistedImports ([''import { readFile } from "fs";''] @ []) = [''import { readFile } from "fs";'']\<close>
    by code_simp
  have g: \<open>''import { helper } from '' @ CHR 0x22 # ''./a'' @ CHR 0x22 # '';'' = ''import { helper } from "./a";''\<close>
    by simp
  from relative_statements_filtered_before_merge [OF a b c d d disjI1 [OF e],
      of \<open>[''import { readFile } from "fs";'']\<close> "[]"]
  have h: \<open>hoistedImports ([''import { readFile } from "fs";'']
         @ (''import { helper } from '' @ CHR 0x22 # ''./a'' @ CHR 0x22 # '';'') # [])
       = hoistedImports ([''import { readFile } from "fs";''] @ [])\<close> .
  from g a b c d e h f show ?thesis
    by (intro conjI)
qed

lemma getDependencies_clear:
  "fst (getDependencies (g\<lparr>mutualResult := [], warnResult := []\<rparr>)) = fst (getDependencies g)"
  by (simp add: getDependencies_def)

lemma depFiles_clear:
  "depFiles (dependency rp rf (g\<lparr>mutualResult := [], warnResult := []\<rparr>))
     = depFiles (dependency rp rf g)"
  by (simp add: dependency_def getDependencies_def)

lemma messages_empty_iff:
  "(messages (dependency rp rf g) = []) = (mutualResult g = [] \<and> warnResult g = [])"
  by (auto simp: dependency_def getDependencies_def)

text \<open>
  C7, as the code has it: \<open>dependency\<close> answers the findings as messages (none exactly
  when the resolver reports no circular pair and no unknown module), and \<open>bundle\<close> reads
  only \<open>depFiles\<close> of that answer.  The findings abort nothing and change nothing:
  \<open>bundle\<close> gives the same result, success or failure, as with no findings at all.
\<close>

theorem findings_do_not_reach_bundle_result:
  "bundleFn (ext\<lparr>dependencies := \<lambda>e. g\<rparr>) entry options
     = bundleFn (ext\<lparr>dependencies := \<lambda>e. g\<lparr>mutualResult := [], warnResult := []\<rparr>\<rparr>) entry options
   \<and> (messages (dependency rp rf g) = []) = (mutualResult g = [] \<and> warnResult g = [])"
proof -
  have "bundleFn (ext\<lparr>dependencies := \<lambda>e. g\<rparr>) entry options
     = bundleFn (ext\<lparr>dependencies := \<lambda>e. g\<lparr>mutualResult := [], warnResult := []\<rparr>\<rparr>) entry options"
    unfolding bundleFn_def
    by (simp add: depFiles_clear Let_def split: option.splits sum.splits prod.splits)
  then show ?thesis
    using messages_empty_iff by blast
qed

text \<open>
  C7 as stated fails: for a resolver that reports a circular pair and an unknown module,
  \<open>dependency\<close> holds the two messages, and the successful result of \<open>bundle\<close> is the
  bundled text and the JSX flag, with no warning text beside them.
\<close>

theorem bundle_result_carries_no_findings:
  "messages (dependency id (\<lambda>f. ''export const a = 1;'')
       \<lparr>sortResult = [''a.ts''], mutualResult = [(''a.ts'', ''b.ts'')],
        warnResult = [''unknown module x'']\<rparr>)
     = [''a.ts -> b.ts \<newline> b.ts -> a.ts \<newline>'', ''unknown module x\<newline>'']
   \<and> bundleFn
       \<lparr>dependencies = (\<lambda>e. \<lparr>sortResult = [''a.ts''], mutualResult = [(''a.ts'', ''b.ts'')],
                                warnResult = [''unknown module x'']\<rparr>),
        resolvePath = id, readFile = (\<lambda>f. ''export const a = 1;''),
        tsconfig = (\<lambda>p. ()), checks = (\<lambda>d opts. None), checkJSX = (\<lambda>d. False),
        renamed = (\<lambda>d opts. Inr d), notRenamed = (\<lambda>d opts. Inr d), anonymous = (\<lambda>d opts. Inr d),
        createSourceFile = (\<lambda>f c. Node (OtherKind ''SourceFile'') c None []),
        printNode = (\<lambda>opts n. getText n)\<rparr> ''a.ts'' None
     = Inr \<lparr>bundleContent = ''export const a = 1;'', isJsx = False\<rparr>"
  by code_simp

text \<open>
  C8: the handler returns the unit's path unchanged.  Its clean-up pattern begins with
  \<open>^s*\<close> (the letter) where \<open>^\s*\<close> is meant: a semicolon-only line at the start of a
  line is removed, an indented one is not.  For an import inside a namespace block the
  printed text has the empty statement on an indented line of its own, and the returned
  content keeps that line.
\<close>

theorem removeImport_leaves_indented_semicolon_line:
  "file (fst (removeImportExpressionHandler cs pn removed dep)) = file dep
   \<and> removeImportExpressionHandler
       (\<lambda>f c. Node (OtherKind ''SourceFile'') c None
          [Node (OtherKind ''ModuleDeclaration'') c None
            [Node Identifier ''N'' None [],
             Node (OtherKind ''ModuleBlock'') ''{\<newline>    import x = M.y;\<newline>}'' None
               [Node ImportEqualsDeclaration ''import x = M.y;'' None []]]])
       (\<lambda>root. ''namespace N {\<newline>    ;\<newline>}\<newline>'')
       [] \<lparr>file = ''a.ts'', content = ''namespace N {\<newline>    import x = M.y;\<newline>}''\<rparr>
     = (\<lparr>file = ''a.ts'', content = ''namespace N {\<newline>    ;\<newline>}''\<rparr>, [''import x = M.y;''])
   \<and> cleanContent '';\<newline>const a = 1;\<newline>'' = ''const a = 1;''"
proof -
  have a: "file (fst (removeImportExpressionHandler cs pn removed dep)) = file dep"
    by (simp add: removeImportExpressionHandler_def split: prod.splits)
  have b: "removeImportExpressionHandler
       (\<lambda>f c. Node (OtherKind ''SourceFile'') c None
          [Node (OtherKind ''ModuleDeclaration'') c None
            [Node Identifier ''N'' None [],
             Node (OtherKind ''ModuleBlock'') ''{\<newline>    import x = M.y;\<newline>}'' None
               [Node ImportEqualsDeclaration ''import x = M.y;'' None []]]])
       (\<lambda>root. ''namespace N {\<newline>    ;\<newline>}\<newline>'')
       [] \<lparr>file = ''a.ts'', content = ''namespace N {\<newline>    import x = M.y;\<newline>}''\<rparr>
     = (\<lparr>file = ''a.ts'', content = ''namespace N {\<newline>    ;\<newline>}''\<rparr>, [''import x = M.y;''])"
    by code_simp
  have c: "cleanContent '';\<newline>const a = 1;\<newline>'' = ''const a = 1;''"
    by code_simp
  from a b c show ?thesis by (intro conjI)
qed

subsection \<open>The visitors\<close>

lemma visitImports_both:
  "\<not> hasImport (fst (visitImports t removed))
     \<and> snd (visitImports t removed) = removed @ importTexts t"
  "\<not> list_ex hasImport (fst (visitImportsEach ts removed))
     \<and> snd (visitImportsEach ts removed) = removed @ concat (map importTexts ts)"
proof (induction t removed and ts removed rule: visitImports_visitImportsEach.induct)
  case (1 k tx mods cs removedStatements)
  then show ?case
    by (auto simp: createEmptyStatement_def split: prod.splits)
next
  case (2 removedStatements)
  then show ?case by simp
next
  case (3 c cs removedStatements)
  then show ?case
    by (auto split: prod.splits)
qed

text \<open>
  The import visitor, on any tree: the visited tree has no import node left, and the
  shared list is extended by the texts of the removed nodes in depth-first order.  Both
  handlers return the unit's path unchanged.
\<close>

theorem removeImports_leaves_no_import:
  "\<not> hasImport (fst (visitImports t removed))
   \<and> snd (visitImports t removed) = removed @ importTexts t
   \<and> snd (removeImportExpressionHandler cs pn removed dep)
       = removed @ importTexts (cs (file dep) (content dep))
   \<and> file (removeExportExpressionHandler cs pn dep) = file dep"
proof -
  have "snd (removeImportExpressionHandler cs pn removed dep)
      = snd (visitImports (cs (file dep) (content dep)) removed)"
    by (simp add: removeImportExpressionHandler_def split: prod.splits)
  then show ?thesis
    using visitImports_both(1)
    by (simp add: removeExportExpressionHandler_def)
qed

lemma withoutExport_idem: "withoutExport (withoutExport mods) = withoutExport mods"
  by (cases mods) (simp_all add: withoutExport_def)

lemma kind_visitExports_Identifier:
  "(kind (visitExports e) = Identifier) = (kind e = Identifier)"
  by (cases e) (auto simp: createEmptyStatement_def isDeclarationKind_def)

lemma hd_kind_map_visitExports:
  "(case map visitExports cs of [] \<Rightarrow> False | expr # _ \<Rightarrow> kind expr = Identifier)
     = (case cs of [] \<Rightarrow> False | expr # _ \<Rightarrow> kind expr = Identifier)"
  by (cases cs) (simp_all add: kind_visitExports_Identifier)

lemma visitExports_empty: "visitExports createEmptyStatement = createEmptyStatement"
  by (simp add: createEmptyStatement_def isDeclarationKind_def)

text \<open>
  The export visitor on trees: a second visit changes nothing when the tree is flat,
  that is when no declaration that loses its export marker holds a further export
  construct (the visitor does not descend into such a declaration).
\<close>

theorem visitExports_idempotent_on_flat_trees:
  "exportFlat t \<Longrightarrow> visitExports (visitExports t) = visitExports t"
proof (induction t rule: visitExports.induct)
  case (1 k tx mods cs)
  show ?case
  proof (cases "isDeclarationKind k
         \<and> map_option length (withoutExport mods) \<noteq> map_option length mods")
    case True
    then have "list_all (\<lambda>c. visitExports c = c) cs"
      using "1.prems" by simp
    then have "map visitExports cs = cs"
      by (simp add: list_all_iff map_idI)
    moreover have "k \<noteq> ExportDeclaration" "k \<noteq> ExportAssignment"
      using True by (auto simp: isDeclarationKind_def)
    ultimately show ?thesis
      using True by (simp add: withoutExport_idem)
  next
    case False
    then have flat: "list_all exportFlat cs"
      using "1.prems" by simp
    show ?thesis
    proof (cases "k = ExportDeclaration \<or> (k = ExportAssignment
         \<and> (case cs of [] \<Rightarrow> False | expr # _ \<Rightarrow> kind expr = Identifier))")
      case True
      then show ?thesis
        using False visitExports_empty by auto
    next
      case other: False
      have "map visitExports (map visitExports cs) = map visitExports cs"
        using "1.IH" False other flat by (auto simp: list_all_iff)
      then show ?thesis
        using False other by (auto simp: hd_kind_map_visitExports simp del: map_map)
    qed
  qed
qed

text \<open>The hypothesis holds of a file with an exported function and a re-export.\<close>

theorem visitExports_idempotent_on_flat_trees_witness:
  "exportFlat (Node (OtherKind ''SourceFile'') [] None
      [Node FunctionDeclaration ''export function helper(){}'' (Some [ExportKeyword]) [],
       Node ExportDeclaration ''export { x };'' None []])
   \<and> visitExports (Node (OtherKind ''SourceFile'') [] None
      [Node FunctionDeclaration ''export function helper(){}'' (Some [ExportKeyword]) [],
       Node ExportDeclaration ''export { x };'' None []])
     = Node (OtherKind ''SourceFile'') [] None
      [Node FunctionDeclaration ''export function helper(){}'' (Some []) [],
       Node EmptyStatement '';'' None []]
   \<and> visitExports (visitExports (Node (OtherKind ''SourceFile'') [] None
      [Node FunctionDeclaration ''export function helper(){}'' (Some [ExportKeyword]) [],
       Node ExportDeclaration ''export { x };'' None []]))
     = visitExports (Node (OtherKind ''SourceFile'') [] None
      [Node FunctionDeclaration ''export function helper(){}'' (Some [ExportKeyword]) [],
       Node ExportDeclaration ''export { x };'' None []])"
proof -
  have a: "exportFlat (Node (OtherKind ''SourceFile'') [] None
      [Node FunctionDeclaration ''export function helper(){}'' (Some [ExportKeyword]) [],
       Node ExportDeclaration ''export { x };'' None []])"
    by code_simp
  have b: "visitExports (Node (OtherKind ''SourceFile'') [] None
      [Node FunctionDeclaration ''export function helper(){}'' (Some [ExportKeyword]) [],
       Node ExportDeclaration ''export { x };'' None []])
     = Node (OtherKind ''SourceFile'') [] None
      [Node FunctionDeclaration ''export function helper(){}'' (Some []) [],
       Node EmptyStatement '';'' None []]"
    by code_simp
  from a b visitExports_idempotent_on_flat_trees [OF a] show ?thesis
    by (intro conjI)
qed

text \<open>
  Without flatness the second visit can differ: an exported declaration nested in an
  exported declaration keeps its marker in the first visit and loses it in the second.
\<close>

lemma visitExports_not_idempotent_when_nested:
  "visitExports (visitExports
      (Node FunctionDeclaration ''f'' (Some [ExportKeyword])
         [Node VariableStatement ''v'' (Some [ExportKeyword]) []]))
   \<noteq> visitExports
      (Node FunctionDeclaration ''f'' (Some [ExportKeyword])
         [Node VariableStatement ''v'' (Some [ExportKeyword]) []])"
  by code_simp

end
